theory Spec2Isabelle
  imports Main
begin

section \<open>Python strings\<close>

text \<open>
  A Python \<open>str\<close> is modelled as a \<^typ>\<open>string\<close> whose characters are the code points
  U+0000 to U+00FF, one \<^typ>\<open>char\<close> per code point. This range holds every character
  the two modules name (the accented vowels, the n with tilde, the degree sign); strings
  with code points beyond it are outside the model. The character classes below are
  those of Python 3 on this range.
\<close>

definition isspace :: "char \<Rightarrow> bool" where
  \<comment> \<open>\<open>str.isspace\<close>: TAB to CR, FS to US, space, NEL and the no-break space.\<close>
  "isspace c \<longleftrightarrow> c \<in> set [CHR 0x09, CHR 0x0A, CHR 0x0B, CHR 0x0C, CHR 0x0D,
     CHR 0x1C, CHR 0x1D, CHR 0x1E, CHR 0x1F, CHR 0x20, CHR 0x85, CHR 0xA0]"

definition isdecimal :: "char \<Rightarrow> bool" where
  \<comment> \<open>the characters \<open>int\<close> accepts as digits: \<open>0\<close> to \<open>9\<close>.\<close>
  "isdecimal c \<longleftrightarrow> c \<in> set ''0123456789''"

definition isdigit :: "char \<Rightarrow> bool" where
  \<comment> \<open>\<open>str.isdigit\<close>: the decimal digits and the superscripts two, three and one.\<close>
  "isdigit c \<longleftrightarrow> isdecimal c \<or> c \<in> set [CHR 0xB2, CHR 0xB3, CHR 0xB9]"

definition strip :: "string \<Rightarrow> string" where
  \<comment> \<open>\<open>s.strip()\<close>\<close>
  "strip s = rev (dropWhile isspace (rev (dropWhile isspace s)))"

definition lower_char :: "char \<Rightarrow> char" where
  "lower_char c =
     (let n = (of_char c :: nat)
      in if (65 \<le> n \<and> n \<le> 90) \<or> (192 \<le> n \<and> n \<le> 222 \<and> n \<noteq> 215)
         then char_of (n + 32) else c)"

definition lower :: "string \<Rightarrow> string" where
  \<comment> \<open>\<open>s.lower()\<close>\<close>
  "lower s = map lower_char s"

definition replace :: "char \<Rightarrow> string \<Rightarrow> string \<Rightarrow> string" where
  \<comment> \<open>\<open>s.replace(a, b)\<close> for a pattern \<open>a\<close> of one character.\<close>
  "replace a b s = concat (map (\<lambda>c. if c = a then b else [c]) s)"

definition digit_val :: "char \<Rightarrow> nat" where
  "digit_val c = of_char c - 48"

definition py_int :: "string \<Rightarrow> nat option" where
  \<comment> \<open>\<open>int(s)\<close> on a string without sign or blanks: \<open>ValueError\<close> (here \<open>None\<close>) when
      the string is empty or holds a character that is no decimal digit.\<close>
  "py_int s = (if s \<noteq> [] \<and> list_all isdecimal s
               then Some (foldl (\<lambda>a c. 10 * a + digit_val c) 0 s) else None)"

fun str_nat :: "nat \<Rightarrow> string" where
  "str_nat n = (if n < 10 then [char_of (48 + n)]
                else str_nat (n div 10) @ [char_of (48 + n mod 10)])"

definition str_int :: "int \<Rightarrow> string" where
  \<comment> \<open>\<open>str(n)\<close>\<close>
  "str_int n = (if n < 0 then CHR ''-'' # str_nat (nat (- n)) else str_nat (nat n))"

definition upper_ascii :: "char \<Rightarrow> char" where
  "upper_ascii c =
     (let n = (of_char c :: nat) in if 97 \<le> n \<and> n \<le> 122 then char_of (n - 32) else c)"

definition capitalize :: "string \<Rightarrow> string" where
  \<comment> \<open>\<open>s.capitalize()\<close>, for a string that starts with an ASCII character (the only
      use is on a month name).\<close>
  "capitalize s = (case s of [] \<Rightarrow> [] | c # cs \<Rightarrow> upper_ascii c # lower cs)"

section \<open>The target date\<close>

text \<open>
  \<open>datetime.strptime(fecha_objetivo, "%Y-%m-%d")\<close> matches the whole string against
  four digits, a dash, a month (\<open>1[0-2]|0[1-9]|[1-9]\<close>), a dash and a day
  (\<open>3[01]|[12]\d|0[1-9]|[1-9]| [1-9]\<close>), and then builds the date, which fails for year 0
  and for a day the month does not have. Every failure is a \<open>ValueError\<close>.
\<close>

fun splitc :: "char \<Rightarrow> string \<Rightarrow> string list" where
  "splitc c [] = [[]]"
| "splitc c (x # xs) =
     (if x = c then [] # splitc c xs
      else (case splitc c xs of [] \<Rightarrow> [[x]] | p # ps \<Rightarrow> (x # p) # ps))"

definition match_Y :: "string \<Rightarrow> nat option" where
  "match_Y s = (if length s = 4 then py_int s else None)"

definition match_m :: "string \<Rightarrow> nat option" where
  "match_m s =
     (case s of
        [a] \<Rightarrow> if isdecimal a \<and> a \<noteq> CHR ''0'' then Some (digit_val a) else None
      | [a, b] \<Rightarrow>
          if a = CHR ''1'' \<and> b \<in> set ''012'' then Some (10 + digit_val b)
          else if a = CHR ''0'' \<and> isdecimal b \<and> b \<noteq> CHR ''0'' then Some (digit_val b)
          else None
      | _ \<Rightarrow> None)"

definition match_d :: "string \<Rightarrow> nat option" where
  "match_d s =
     (case s of
        [a] \<Rightarrow> if isdecimal a \<and> a \<noteq> CHR ''0'' then Some (digit_val a) else None
      | [a, b] \<Rightarrow>
          if a = CHR ''3'' \<and> b \<in> set ''01'' then Some (30 + digit_val b)
          else if a \<in> set ''12'' \<and> isdecimal b then Some (10 * digit_val a + digit_val b)
          else if a \<in> set ''0 '' \<and> isdecimal b \<and> b \<noteq> CHR ''0'' then Some (digit_val b)
          else None
      | _ \<Rightarrow> None)"

definition leap_year :: "nat \<Rightarrow> bool" where
  "leap_year y \<longleftrightarrow> y mod 4 = 0 \<and> (y mod 100 \<noteq> 0 \<or> y mod 400 = 0)"

definition days_in_month :: "nat \<Rightarrow> nat \<Rightarrow> nat" where
  "days_in_month y m =
     (if m = 2 then (if leap_year y then 29 else 28)
      else if m \<in> set [4, 6, 9, 11] then 30 else 31)"

definition strptime :: "string \<Rightarrow> (nat \<times> nat \<times> nat) option" where
  "strptime s =
     (case splitc CHR ''-'' s of
        [ys, ms, ds] \<Rightarrow>
          (case (match_Y ys, match_m ms, match_d ds) of
             (Some y, Some m, Some d) \<Rightarrow>
               if 1 \<le> y \<and> d \<le> days_in_month y m then Some (y, m, d) else None
           | _ \<Rightarrow> None)
      | _ \<Rightarrow> None)"

definition month_names :: "string list" where
  \<comment> \<open>\<open>strftime("%B")\<close>: the modules set no locale, so the names are those of the C locale.\<close>
  "month_names = [''January'', ''February'', ''March'', ''April'', ''May'', ''June'',
     ''July'', ''August'', ''September'', ''October'', ''November'', ''December'']"

definition strftime_B :: "nat \<times> nat \<times> nat \<Rightarrow> string" where
  "strftime_B dt = (case dt of (y, m, d) \<Rightarrow> month_names ! (m - 1))"

definition mes_de :: "string \<Rightarrow> string option" where
  \<comment> \<open>\<open>datetime.strptime(fecha_objetivo, "%Y-%m-%d").strftime("%B").capitalize()\<close>\<close>
  "mes_de fecha = map_option (\<lambda>dt. capitalize (strftime_B dt)) (strptime fecha)"

section \<open>Header lookup\<close>

text \<open>
  The two modules are near copies. \<open>SheetsPy\<close> stands for \<open>utils/sheets.py\<close> and
  \<open>ScrapingPy\<close> for \<open>utils/scraping.py\<close>; a function that differs between them takes the
  module as its first argument.
\<close>

datatype variant = SheetsPy | ScrapingPy

definition normaliza :: "string \<Rightarrow> string" where
  \<comment> \<open>\<open>_normaliza\<close> of scraping.py\<close>
  "normaliza s =
     replace (CHR 0xF1) ''n'' (replace (CHR 0xFA) ''u'' (replace (CHR 0xF3) ''o''
       (replace (CHR 0xED) ''i'' (replace (CHR 0xE9) ''e'' (replace (CHR 0xE1) ''a''
         (lower (strip s)))))))"

definition norm :: "string \<Rightarrow> string" where
  \<comment> \<open>\<open>_norm\<close> of sheets.py: as \<open>_normaliza\<close>, and the degree sign is removed.\<close>
  "norm s = replace (CHR 0xB0) [] (normaliza s)"

definition normalizer :: "variant \<Rightarrow> string \<Rightarrow> string" where
  "normalizer v = (case v of SheetsPy \<Rightarrow> norm | ScrapingPy \<Rightarrow> normaliza)"

fun first_index :: "'a list \<Rightarrow> 'a \<Rightarrow> nat option" where
  "first_index [] c = None"
| "first_index (h # hs) c = (if h = c then Some 0 else map_option Suc (first_index hs c))"

fun header_idx :: "(string \<Rightarrow> string) \<Rightarrow> string list \<Rightarrow> string list \<Rightarrow> nat option" where
  "header_idx nrm headers [] = None"
| "header_idx nrm headers (cand # cands) =
     (case first_index (map nrm headers) (nrm cand) of
        Some i \<Rightarrow> Some i
      | None \<Rightarrow> header_idx nrm headers cands)"

definition find_header_idx :: "variant \<Rightarrow> string list \<Rightarrow> string list \<Rightarrow> nat option" where
  \<comment> \<open>\<open>_find_header_idx\<close> of sheets.py, \<open>_encabezado_idx\<close> of scraping.py\<close>
  "find_header_idx v headers candidatos = header_idx (normalizer v) headers candidatos"

section \<open>The tabular backend\<close>

text \<open>
  The spreadsheet service is outside the repository. It is modelled as an in-memory
  table store with the calls the modules make: a spreadsheet maps a tab title to a grid
  of cells (a list of rows, each a list of strings, the empty string an empty cell), and
  every call is recorded in \<open>calls\<close>, so that "no backend I/O" can be stated. Reads return
  what the values API returns: a row or column up to its last non-empty cell. Values are
  stored as they are sent; the reinterpretation of text by \<open>USER_ENTERED\<close> is not
  modelled.
\<close>

datatype pyval = Str string | Num int | NaN

type_synonym grid = "string list list"

datatype call =
    Connect
  | Worksheet string
  | AddWorksheet string
  | RowValues string nat
  | ColValues string nat
  | Update string "string list"
  | AppendRows string "pyval list list"
  | GetAllValues string
  | ACell string nat nat
  | Format string nat nat bool

record backend =
  sheets :: "string \<rightharpoonup> grid"
  calls :: "call list"

datatype error = ValueError | InvalidJSONError

definition strip_trailing :: "string list \<Rightarrow> string list" where
  "strip_trailing xs = rev (dropWhile (\<lambda>x. x = []) (rev xs))"

definition cell :: "string list \<Rightarrow> nat \<Rightarrow> string" where
  "cell r i = (if i < length r then r ! i else [])"

definition grid_row :: "grid \<Rightarrow> nat \<Rightarrow> string list" where
  \<comment> \<open>row \<open>n\<close> (from 1) as the values API returns it\<close>
  "grid_row g n = strip_trailing (case drop (n - 1) g of [] \<Rightarrow> [] | r # _ \<Rightarrow> r)"

definition grid_col :: "grid \<Rightarrow> nat \<Rightarrow> string list" where
  \<comment> \<open>column \<open>c\<close> (from 1) as the values API returns it\<close>
  "grid_col g c = strip_trailing (map (\<lambda>r. cell r (c - 1)) g)"

definition grid_of :: "backend \<Rightarrow> string \<Rightarrow> grid" where
  "grid_of st hoja = (case sheets st hoja of Some g \<Rightarrow> g | None \<Rightarrow> [])"

definition called :: "call \<Rightarrow> backend \<Rightarrow> backend" where
  "called c st = st\<lparr>calls := calls st @ [c]\<rparr>"

definition conectar_google_sheets :: "backend \<Rightarrow> backend" where
  \<comment> \<open>credentials are outside the model: the connection succeeds\<close>
  "conectar_google_sheets st = called Connect st"

definition row_values :: "string \<Rightarrow> nat \<Rightarrow> backend \<Rightarrow> string list \<times> backend" where
  "row_values hoja n st = (grid_row (grid_of st hoja) n, called (RowValues hoja n) st)"

definition col_values :: "string \<Rightarrow> nat \<Rightarrow> backend \<Rightarrow> string list \<times> backend" where
  "col_values hoja c st = (grid_col (grid_of st hoja) c, called (ColValues hoja c) st)"

definition write_A1 :: "grid \<Rightarrow> string list \<Rightarrow> grid" where
  "write_A1 g fila = (case g of [] \<Rightarrow> [fila] | r # rest \<Rightarrow> (fila @ drop (length fila) r) # rest)"

definition update_A1 :: "string \<Rightarrow> string list \<Rightarrow> backend \<Rightarrow> backend" where
  \<comment> \<open>\<open>hoja.update('A1', [fila])\<close>\<close>
  "update_A1 hoja fila st =
     called (Update hoja fila) (st\<lparr>sheets := (sheets st)(hoja \<mapsto> write_A1 (grid_of st hoja) fila)\<rparr>)"

definition add_worksheet :: "string \<Rightarrow> backend \<Rightarrow> backend" where
  "add_worksheet title st = called (AddWorksheet title) (st\<lparr>sheets := (sheets st)(title \<mapsto> [])\<rparr>)"

fun render :: "pyval \<Rightarrow> string option" where
  "render (Str s) = Some s"
| "render (Num n) = Some (str_int n)"
| "render NaN = None"

definition render_rows :: "pyval list list \<Rightarrow> grid option" where
  "render_rows filas = those (map (\<lambda>f. those (map render f)) filas)"

definition append_rows :: "string \<Rightarrow> pyval list list \<Rightarrow> backend \<Rightarrow> (error + unit) \<times> backend" where
  \<comment> \<open>\<open>hoja.append_rows(filas, value_input_option="USER_ENTERED")\<close>. The rows go to the
      service as JSON, and a NaN has no JSON encoding: the request is refused with
      \<open>InvalidJSONError\<close> and nothing is stored.\<close>
  "append_rows hoja filas st =
     (case render_rows filas of
        None \<Rightarrow> (Inl InvalidJSONError, called (AppendRows hoja filas) st)
      | Some rs \<Rightarrow>
          (Inr (), called (AppendRows hoja filas)
                     (st\<lparr>sheets := (sheets st)(hoja \<mapsto> grid_of st hoja @ rs)\<rparr>)))"

definition get_all_values :: "grid \<Rightarrow> grid" where
  "get_all_values g = rev (dropWhile (\<lambda>r. list_all (\<lambda>c. c = []) r) (rev g))"

section \<open>Reconciling the header, reading the sequence and the identifiers\<close>

definition asegurar_encabezados :: "string \<Rightarrow> string list \<Rightarrow> backend \<Rightarrow> string list \<times> backend" where
  "asegurar_encabezados hoja esperados st =
     (case row_values hoja 1 st of (headers, st1) \<Rightarrow>
        if headers = [] then (esperados, update_A1 hoja esperados st1)
        else let faltantes = filter (\<lambda>h. h \<notin> set headers) esperados
             in if faltantes \<noteq> [] then (headers @ faltantes, update_A1 hoja (headers @ faltantes) st1)
                else (headers, st1))"

definition numero_aliases :: "string list" where
  "numero_aliases = [[CHR ''N'', CHR 0xFA, CHR ''m'', CHR ''e'', CHR ''r'', CHR ''o''],
     ''Numero'', [CHR ''N'', CHR 0xB0], ''Nro'', ''#'', ''Num'', ''No.'']"

definition id_aliases :: "string list" where
  "id_aliases = [''ID'', ''Id'', ''id'']"

fun collect_nums :: "string list \<Rightarrow> nat list" where
  \<comment> \<open>the loop of \<open>_ultimo_numero\<close> that fills \<open>nums\<close>\<close>
  "collect_nums [] = []"
| "collect_nums (v # vs) =
     (let digits = filter isdigit (strip v)
      in if digits \<noteq> []
         then (case py_int digits of
                 Some n \<Rightarrow> if n > 0 then n # collect_nums vs else collect_nums vs
               | None \<Rightarrow> collect_nums vs)
         else collect_nums vs)"

definition max_or_zero :: "nat list \<Rightarrow> nat" where
  \<comment> \<open>\<open>max(nums) if nums else 0\<close>\<close>
  "max_or_zero nums = (case nums of [] \<Rightarrow> 0 | n # ns \<Rightarrow> fold max ns n)"

definition ultimo_numero :: "variant \<Rightarrow> string \<Rightarrow> string list \<Rightarrow> backend \<Rightarrow> nat \<times> backend" where
  "ultimo_numero v hoja headers st =
     (case find_header_idx v headers numero_aliases of
        None \<Rightarrow> (0, st)
      | Some idx \<Rightarrow>
          (case col_values hoja (idx + 1) st of (vals, st1) \<Rightarrow>
             (max_or_zero (collect_nums (drop 1 vals)), st1)))"

definition ids_existentes :: "variant \<Rightarrow> string \<Rightarrow> string list \<Rightarrow> backend \<Rightarrow> string set \<times> backend" where
  "ids_existentes v hoja headers st =
     (case find_header_idx v headers id_aliases of
        None \<Rightarrow> ({}, st)
      | Some idx \<Rightarrow>
          (case col_values hoja (idx + 1) st of (vals, st1) \<Rightarrow>
             (set (map strip (filter (\<lambda>c. strip c \<noteq> []) (drop 1 vals))), st1)))"

section \<open>Data frames\<close>

text \<open>
  An incoming record is a Python dict: an association list with distinct keys. A data
  frame has its column names and its rows, each row with its index label; a value a row
  does not have is NaN. Assigning a Series to a column aligns it on the index labels: a
  row takes the value the Series has at the row's own label, and NaN when the Series has
  no such label.
\<close>

type_synonym pydict = "(string \<times> pyval) list"

record dataframe =
  columns :: "string list"
  rows :: "(nat \<times> (string \<Rightarrow> pyval)) list"

datatype colvalue = Scalar pyval | Series "(nat \<times> pyval) list" | Range nat nat

definition add_col :: "string list \<Rightarrow> string \<Rightarrow> string list" where
  "add_col cs c = (if c \<in> set cs then cs else cs @ [c])"

definition record_row :: "pydict \<Rightarrow> string \<Rightarrow> pyval" where
  "record_row r c = (case map_of r c of Some x \<Rightarrow> x | None \<Rightarrow> NaN)"

definition DataFrame :: "pydict list \<Rightarrow> dataframe" where
  \<comment> \<open>\<open>pd.DataFrame(resultados)\<close>: labels 0, 1, ...; the columns are the keys of all records.\<close>
  "DataFrame rs =
     \<lparr>columns = fold (\<lambda>r cs. fold (\<lambda>k cs. add_col cs k) (map fst r) cs) rs [],
      rows = map (\<lambda>(i, r). (i, record_row r)) (enumerate 0 rs)\<rparr>"

definition df_empty :: "dataframe \<Rightarrow> bool" where
  \<comment> \<open>\<open>df.empty\<close>: no row or no column\<close>
  "df_empty df \<longleftrightarrow> rows df = [] \<or> columns df = []"

definition isin :: "string set \<Rightarrow> pyval \<Rightarrow> bool" where
  \<comment> \<open>membership of one value in a set of strings: a number or NaN equals no string\<close>
  "isin ids x = (case x of Str s \<Rightarrow> s \<in> ids | _ \<Rightarrow> False)"

definition df_get :: "dataframe \<Rightarrow> string \<Rightarrow> pyval \<Rightarrow> colvalue" where
  \<comment> \<open>\<open>df.get(c, default)\<close>\<close>
  "df_get df c d = (if c \<in> set (columns df) then Series (map (\<lambda>(l, r). (l, r c)) (rows df))
                    else Scalar d)"

fun df_setitem :: "dataframe \<Rightarrow> string \<Rightarrow> colvalue \<Rightarrow> dataframe" where
  \<comment> \<open>\<open>df[c] = value\<close>. A range is assigned by position, and gives a frame without rows
      the labels 0, 1, ...; at its only uses the range is as long as the frame, or the
      frame is new.\<close>
  "df_setitem df c (Scalar x) =
     \<lparr>columns = add_col (columns df) c, rows = map (\<lambda>(l, r). (l, r(c := x))) (rows df)\<rparr>"
| "df_setitem df c (Series s) =
     \<lparr>columns = add_col (columns df) c,
      rows = map (\<lambda>(l, r). (l, r(c := (case map_of s l of Some x \<Rightarrow> x | None \<Rightarrow> NaN)))) (rows df)\<rparr>"
| "df_setitem df c (Range a b) =
     \<lparr>columns = add_col (columns df) c,
      rows = (if rows df = [] then map (\<lambda>i. (i, (\<lambda>_. NaN)(c := Num (int (a + i))))) [0..<b - a]
              else map (\<lambda>(i, (l, r)). (l, r(c := Num (int (a + i))))) (enumerate 0 (rows df)))\<rparr>"

definition values_tolist :: "dataframe \<Rightarrow> string list \<Rightarrow> pyval list list" where
  \<comment> \<open>\<open>df[cols].values.tolist()\<close>\<close>
  "values_tolist df cols = map (\<lambda>(l, r). map r cols) (rows df)"

section \<open>Appending the records\<close>

definition col_numero :: string where
  \<comment> \<open>the name of the sequence column, \<open>N\<close>, u with acute accent, \<open>mero\<close>\<close>
  "col_numero = [CHR ''N'', CHR 0xFA, CHR ''m'', CHR ''e'', CHR ''r'', CHR ''o'']"

definition columnas_ordenadas :: "string list" where
  "columnas_ordenadas =
     [col_numero,
      ''FyH Extracci'' @ [CHR 0xF3, CHR ''n''],
      ''FyH Publicaci'' @ [CHR 0xF3, CHR ''n''],
      ''ID'',
      [CHR ''T'', CHR 0xED] @ ''tulo'',
      ''Descripci'' @ [CHR 0xF3, CHR ''n''],
      ''Tipo'', ''Monto'', ''Tipo Monto'', ''LINK FICHA'', ''FyH TERRENO'', ''OBLIG?'',
      ''FyH CIERRE'']"

definition campos :: "(string \<times> string) list" where
  \<comment> \<open>the twelve assignments after the sequence number, in their order: the column
      assigned and the producer field it is read from\<close>
  "campos =
     [(''FyH Extracci'' @ [CHR 0xF3, CHR ''n''], ''fecha_extraccion''),
      (''FyH Publicaci'' @ [CHR 0xF3, CHR ''n''], ''fecha_publicacion''),
      (''ID'', ''id''),
      ([CHR ''T'', CHR 0xED] @ ''tulo'', ''titulo''),
      (''Descripci'' @ [CHR 0xF3, CHR ''n''], ''descripcion''),
      (''Tipo'', ''tipo''),
      (''Monto'', ''monto''),
      (''Tipo Monto'', ''tipo_monto''),
      (''LINK FICHA'', ''link_ficha''),
      (''FyH TERRENO'', ''fecha_visita''),
      (''OBLIG?'', ''visita_obligatoria''),
      (''FyH CIERRE'', ''fecha_cierre'')]"

definition deduplicar :: "dataframe \<Rightarrow> string set \<Rightarrow> dataframe" where
  \<comment> \<open>\<open>if "id" in df.columns: df = df[~df["id"].isin(ids)]\<close>\<close>
  "deduplicar df ids =
     (if ''id'' \<in> set (columns df)
      then df\<lparr>rows := filter (\<lambda>(l, r). \<not> isin ids (r ''id'')) (rows df)\<rparr>
      else df)"

definition mapear :: "variant \<Rightarrow> dataframe \<Rightarrow> nat \<Rightarrow> dataframe" where
  \<comment> \<open>the thirteen column assignments: sheets.py fills a new frame \<open>df_out\<close> from \<open>df\<close>,
      scraping.py assigns into a copy of \<open>df_nuevo\<close> itself.\<close>
  "mapear v df ultimo =
     (let numeros = Range (ultimo + 1) (ultimo + 1 + length (rows df))
      in case v of
           SheetsPy \<Rightarrow>
             fold (\<lambda>(col, campo) out. df_setitem out col (df_get df campo (Str [])))
               campos (df_setitem \<lparr>columns = [], rows = []\<rparr> col_numero numeros)
         | ScrapingPy \<Rightarrow>
             fold (\<lambda>(col, campo) d. df_setitem d col (df_get d campo (Str [])))
               campos (df_setitem df col_numero numeros))"

definition completar :: "dataframe \<Rightarrow> dataframe" where
  \<comment> \<open>\<open>for col in columnas_ordenadas: if col not in df.columns: df[col] = ""\<close>\<close>
  "completar df =
     fold (\<lambda>col d. if col \<notin> set (columns d) then df_setitem d col (Scalar (Str [])) else d)
       columnas_ordenadas df"

definition filas_nuevas :: "variant \<Rightarrow> dataframe \<Rightarrow> nat \<Rightarrow> pyval list list" where
  "filas_nuevas v df ultimo = values_tolist (completar (mapear v df ultimo)) columnas_ordenadas"

definition abrir_hoja :: "string \<Rightarrow> backend \<Rightarrow> backend" where
  \<comment> \<open>\<open>sheet.worksheet(mes)\<close>, and on \<open>WorksheetNotFound\<close> a new tab with the canonical header\<close>
  "abrir_hoja mes st =
     (case sheets st mes of
        Some g \<Rightarrow> called (Worksheet mes) st
      | None \<Rightarrow> update_A1 mes columnas_ordenadas (add_worksheet mes (called (Worksheet mes) st)))"

definition leer_hoja :: "variant \<Rightarrow> string \<Rightarrow> backend \<Rightarrow> (nat \<times> string set) \<times> backend" where
  \<comment> \<open>from the connection to the two reads: the last sequence number and the stored
      identifiers of the tab, with the backend they leave\<close>
  "leer_hoja v mes st =
     (case asegurar_encabezados mes columnas_ordenadas (abrir_hoja mes (conectar_google_sheets st)) of
        (headers, st1) \<Rightarrow>
          (case ultimo_numero v mes headers st1 of (ultimo, st2) \<Rightarrow>
             (case ids_existentes v mes headers st2 of (ids, st3) \<Rightarrow> ((ultimo, ids), st3))))"

definition formato :: "variant \<Rightarrow> string \<Rightarrow> nat \<Rightarrow> backend \<Rightarrow> backend" where
  \<comment> \<open>the cell colouring of scraping.py, on columns 8, 9, 11 and 12 (Monto, Tipo Monto,
      FyH TERRENO, OBLIG?) of the new rows: it reads cells and sets their background, and
      changes no value; sheets.py has none.\<close>
  "formato v hoja n st =
     (case v of
        SheetsPy \<Rightarrow> st
      | ScrapingPy \<Rightarrow>
          (let g = grid_of st hoja;
               end_row = length (get_all_values g);
               start_row = end_row - n + 1;
               celdas = concat (map (\<lambda>c. map (\<lambda>r. (r, c)) [start_row..<end_row + 1]) [8, 9, 11, 12])
           in st\<lparr>calls := calls st @ GetAllValues hoja #
                concat (map (\<lambda>(r, c).
                  (let val = cell (case drop (r - 1) g of [] \<Rightarrow> [] | f # _ \<Rightarrow> f) (c - 1)
                   in [ACell hoja r c, Format hoja r c (strip val \<noteq> [] \<and> strip val \<noteq> ''NF'')]))
                  celdas)\<rparr>))"

datatype outcome = NoResults | NothingNew | Saved nat string

definition guardar_en_hoja ::
  "variant \<Rightarrow> pydict list \<Rightarrow> string \<Rightarrow> backend \<Rightarrow> (error + outcome) \<times> backend" where
  \<comment> \<open>The function returns nothing; the outcome is the message it prints before it
      returns, and an error is the exception it leaves with.\<close>
  "guardar_en_hoja v resultados fecha_objetivo st =
     (if resultados = [] then (Inr NoResults, st)
      else case mes_de fecha_objetivo of
        None \<Rightarrow> (Inl ValueError, st)
      | Some mes \<Rightarrow>
          (case leer_hoja v mes st of ((ultimo, ids), st1) \<Rightarrow>
             (let df = deduplicar (DataFrame resultados) ids
              in if df_empty df then (Inr NothingNew, st1)
                 else (let filas = filas_nuevas v df ultimo
                       in case append_rows mes filas st1 of
                            (Inl e, st2) \<Rightarrow> (Inl e, st2)
                          | (Inr u, st2) \<Rightarrow> (Inr (Saved (length filas) mes), formato v mes (length filas) st2)))))"

section \<open>The specification's wording, and sample data\<close>

definition spec_cell_number :: "string \<Rightarrow> nat option" where
  \<comment> \<open>The specification's sequence scan on one cell: strip the non-digit characters,
      parse the remaining digit run as an integer, discard a non-positive or
      unparseable result.\<close>
  "spec_cell_number c =
     (let run = filter isdigit c
      in case (if run = [] then None else py_int run) of
           None \<Rightarrow> None
         | Some n \<Rightarrow> if 0 < n then Some n else None)"

definition fila_esperada :: "string list \<Rightarrow> nat \<Rightarrow> (string \<Rightarrow> pyval) \<Rightarrow> pyval list" where
  \<comment> \<open>The specification's row for one surviving record: its sequence number, then each
      canonical column from its producer field, and the empty string for a field that no
      incoming record has.\<close>
  "fila_esperada cols n r =
     Num (int n) # map (\<lambda>(col, campo). if campo \<in> set cols then r campo else Str []) campos"

definition filas_esperadas :: "dataframe \<Rightarrow> nat \<Rightarrow> pyval list list" where
  \<comment> \<open>the surviving records in their order, numbered \<open>ultimo + 1\<close>, \<open>ultimo + 2\<close>, ...\<close>
  "filas_esperadas df ultimo =
     map (\<lambda>(i, (l, r)). fila_esperada (columns df) (ultimo + 1 + i) r) (enumerate 0 (rows df))"

definition colval :: "dataframe \<Rightarrow> string \<Rightarrow> nat \<Rightarrow> pyval" where
  \<comment> \<open>what the row with label \<open>l\<close> of another frame receives from \<open>df.get(campo, "")\<close>\<close>
  "colval df campo l =
     (if campo \<in> set (columns df)
      then (case map_of (rows df) l of Some r \<Rightarrow> r campo | None \<Rightarrow> NaN)
      else Str [])"

definition sin_hojas :: backend where
  \<comment> \<open>a spreadsheet without tabs\<close>
  "sin_hojas = \<lparr>sheets = Map.empty, calls = []\<rparr>"

definition hoja_agosto :: backend where
  \<comment> \<open>the tab of August with the canonical header and one stored row: number 5,
      identifier A1\<close>
  "hoja_agosto =
     \<lparr>sheets = [''August'' \<mapsto> [columnas_ordenadas, [''5'', [], [], ''A1'']]], calls = []\<rparr>"

definition hoja_editada :: backend where
  \<comment> \<open>a tab edited by hand: its own column order and names, and untidy sequence cells\<close>
  "hoja_editada =
     \<lparr>sheets = [''August'' \<mapsto>
        [[''Id'', ''Nro'', ''Notas'', []],
         [''A1'', ''3 (pending)''], [''  A2 '', []], [[], ''-1''], [''A3'', ''7''],
         [''A4'', [CHR 0xB2]]]],
      calls = []\<rparr>"

definition lote_parcial :: "pydict list" where
  \<comment> \<open>a batch whose first record is already stored in \<open>hoja_agosto\<close>\<close>
  "lote_parcial = [[(''id'', Str ''A1''), (''titulo'', Str ''X'')],
                   [(''id'', Str ''A2''), (''titulo'', Str ''Y'')]]"

definition lote_repetido :: "pydict list" where
  \<comment> \<open>a batch with a stored identifier and then twice the same new identifier\<close>
  "lote_repetido = [[(''id'', Str ''A1''), (''titulo'', Str ''X'')],
                    [(''id'', Str ''B''), (''titulo'', Str ''Y'')],
                    [(''id'', Str ''B''), (''titulo'', Str ''Z'')]]"

definition lote_sin_id :: "pydict list" where
  \<comment> \<open>a batch whose records carry no identifier field\<close>
  "lote_sin_id = [[(''titulo'', Str ''X'')]]"

definition first_row :: "grid \<Rightarrow> string list" where
  \<comment> \<open>the cells of row 1, empty ones included\<close>
  "first_row g = (case g of [] \<Rightarrow> [] | r # _ \<Rightarrow> r)"

definition ids_en :: "grid \<Rightarrow> nat \<Rightarrow> string set" where
  \<comment> \<open>the trimmed, non-empty cells that rows hold at position \<open>i\<close> (from 0)\<close>
  "ids_en filas i = strip ` {c \<in> (\<lambda>r. cell r i) ` set filas. strip c \<noteq> []}"

definition append_calls :: "backend \<Rightarrow> call list" where
  \<comment> \<open>the \<open>append_rows\<close> calls made so far\<close>
  "append_calls st = filter (\<lambda>c. case c of AppendRows h f \<Rightarrow> True | _ \<Rightarrow> False) (calls st)"

section \<open>Facts about the backend calls\<close>

lemma called_simps [simp]:
  "sheets (called c st) = sheets st"
  "calls (called c st) = calls st @ [c]"
  "grid_of (called c st) h = grid_of st h"
  by (simp_all add: called_def grid_of_def)

lemma update_A1_simps [simp]:
  "sheets (update_A1 hoja fila st) = (sheets st)(hoja \<mapsto> write_A1 (grid_of st hoja) fila)"
  "calls (update_A1 hoja fila st) = calls st @ [Update hoja fila]"
  "grid_of (update_A1 hoja fila st) h =
     (if h = hoja then write_A1 (grid_of st hoja) fila else grid_of st h)"
  by (simp_all add: update_A1_def grid_of_def)

lemma add_worksheet_simps [simp]:
  "sheets (add_worksheet t st) = (sheets st)(t \<mapsto> [])"
  "calls (add_worksheet t st) = calls st @ [AddWorksheet t]"
  "grid_of (add_worksheet t st) h = (if h = t then [] else grid_of st h)"
  by (simp_all add: add_worksheet_def grid_of_def)

lemma drop_1_write_A1 [simp]: "drop (Suc 0) (write_A1 g fila) = drop (Suc 0) g"
  by (cases g) (simp_all add: write_A1_def)

section \<open>Schema reconciliation\<close>

text \<open>
  C4. On a tab whose header row is not empty, \<open>_asegurar_encabezados\<close> returns the
  existing header followed by the expected names that the header does not hold (exact
  string comparison), with the existing names at their positions. It writes the header
  back exactly when a name is missing; a header that holds every expected name, in any
  order and with any extra columns, comes back unchanged after the one read.
\<close>

theorem asegurar_encabezados_appends_missing:
  assumes "grid_row (grid_of st hoja) 1 \<noteq> []"
  shows "(let headers = grid_row (grid_of st hoja) 1;
              faltantes = filter (\<lambda>h. h \<notin> set headers) esperados;
              nuevos = fst (asegurar_encabezados hoja esperados st);
              st' = snd (asegurar_encabezados hoja esperados st)
          in nuevos = headers @ faltantes
           \<and> take (length headers) nuevos = headers
           \<and> calls st' = calls st @ RowValues hoja 1
                 # (if faltantes \<noteq> [] then [Update hoja nuevos] else [])
           \<and> sheets st' = (if faltantes \<noteq> []
                            then (sheets st)(hoja \<mapsto> write_A1 (grid_of st hoja) nuevos)
                            else sheets st)
           \<and> (set esperados \<subseteq> set headers \<longrightarrow>
                nuevos = headers \<and> sheets st' = sheets st
                \<and> calls st' = calls st @ [RowValues hoja 1]))"
  using assms
  by (auto simp: asegurar_encabezados_def row_values_def Let_def filter_empty_conv)

theorem asegurar_encabezados_appends_missing_witness:
  "grid_row (grid_of hoja_editada ''August'') 1 \<noteq> []
   \<and> fst (asegurar_encabezados ''August'' [''Nro'', ''ID'', ''Id''] hoja_editada)
       = [''Id'', ''Nro'', ''Notas'', ''ID'']
   \<and> calls (snd (asegurar_encabezados ''August'' [''Nro'', ''ID'', ''Id''] hoja_editada))
       = [RowValues ''August'' 1, Update ''August'' [''Id'', ''Nro'', ''Notas'', ''ID'']]
   \<and> fst (asegurar_encabezados ''August'' [''Nro'', ''Id''] hoja_editada)
       = [''Id'', ''Nro'', ''Notas'']
   \<and> calls (snd (asegurar_encabezados ''August'' [''Nro'', ''Id''] hoja_editada))
       = [RowValues ''August'' 1]"
proof -
  have h: "grid_row (grid_of hoja_editada ''August'') 1 \<noteq> []"
    by (simp add: hoja_editada_def grid_of_def grid_row_def strip_trailing_def)
  have g: "grid_row (grid_of hoja_editada ''August'') 1 = [''Id'', ''Nro'', ''Notas'']"
    by (simp add: hoja_editada_def grid_of_def grid_row_def strip_trailing_def)
  have c: "calls hoja_editada = []"
    by (simp add: hoja_editada_def)
  show ?thesis
    using asegurar_encabezados_appends_missing [OF h, of "[''Nro'', ''ID'', ''Id'']"]
          asegurar_encabezados_appends_missing [OF h, of "[''Nro'', ''Id'']"]
    unfolding Let_def g by (simp add: c)
qed

section \<open>The last sequence number\<close>

lemma isdigit_not_isspace: "isdigit c \<Longrightarrow> \<not> isspace c"
  by (auto simp: isdigit_def isdecimal_def isspace_def)

lemma filter_dropWhile_disjoint:
  "(\<And>x. P x \<Longrightarrow> \<not> Q x) \<Longrightarrow> filter P (dropWhile Q xs) = filter P xs"
  by (induction xs) auto

lemma filter_isdigit_strip: "filter isdigit (strip s) = filter isdigit s"
proof -
  have "filter isdigit (strip s)
          = rev (filter isdigit (dropWhile isspace (rev (dropWhile isspace s))))"
    by (simp add: strip_def rev_filter)
  also have "\<dots> = rev (filter isdigit (rev (dropWhile isspace s)))"
    by (simp add: filter_dropWhile_disjoint isdigit_not_isspace)
  also have "\<dots> = filter isdigit (dropWhile isspace s)"
    by (simp add: rev_filter)
  also have "\<dots> = filter isdigit s"
    by (simp add: filter_dropWhile_disjoint isdigit_not_isspace)
  finally show ?thesis .
qed

lemma collect_nums_map_filter: "collect_nums vs = List.map_filter spec_cell_number vs"
  by (induction vs)
     (auto simp: List.map_filter_simps spec_cell_number_def filter_isdigit_strip Let_def
           split: option.splits)

lemma fold_max_Max: "fold max ns (n::nat) = Max (insert n (set ns))"
  using Max.set_eq_fold [of n ns] by simp

lemma max_or_zero_Max: "max_or_zero ns = Max (insert 0 (set ns))"
proof (cases ns)
  case Nil
  then show ?thesis by (simp add: max_or_zero_def)
next
  case (Cons n ms)
  have "Max (insert 0 (set (n # ms))) = max 0 (Max (set (n # ms)))"
    by (rule Max_insert) auto
  then show ?thesis using Cons by (simp add: max_or_zero_def fold_max_Max)
qed

section \<open>An empty record list\<close>

text \<open>
  C9. With an empty record list \<open>guardar_en_hoja\<close> returns at once with the message that
  there is nothing to save, whatever the date string: the date is not parsed and the
  backend is left as it was, no call made.
\<close>

theorem empty_input_returns_at_once:
  "guardar_en_hoja v [] fecha_objetivo st = (Inr NoResults, st)"
  by (simp add: guardar_en_hoja_def)

theorem empty_input_returns_at_once_witness:
  "mes_de ''15/08/2024'' = None
   \<and> guardar_en_hoja ScrapingPy [] ''15/08/2024'' hoja_agosto = (Inr NoResults, hoja_agosto)"
proof -
  have "mes_de ''15/08/2024'' = None" by code_simp
  then show ?thesis
    using empty_input_returns_at_once [of ScrapingPy "''15/08/2024''" hoja_agosto] by simp
qed


section \<open>The target date and the partition\<close>

lemma match_m_range: "match_m s = Some m \<Longrightarrow> 1 \<le> m \<and> m \<le> 12"
  by (auto simp: match_m_def isdecimal_def digit_val_def split: list.splits if_splits)

lemma strptime_month: "strptime s = Some (y, m, d) \<Longrightarrow> 1 \<le> m \<and> m \<le> 12"
  by (auto simp: strptime_def split: list.splits option.splits if_splits dest: match_m_range)

lemma capitalize_month_names: "list_all (\<lambda>s. capitalize s = s) month_names"
  by (simp add: month_names_def capitalize_def upper_ascii_def lower_def lower_char_def)

lemma capitalize_month:
  assumes "1 \<le> m" "m \<le> 12"
  shows "capitalize (month_names ! (m - 1)) = month_names ! (m - 1)"
proof -
  have "m - 1 < length month_names" using assms by (simp add: month_names_def)
  then show ?thesis using capitalize_month_names by (simp add: list_all_length)
qed

lemma mes_de_month:
  "strptime s = Some (y, m, d) \<Longrightarrow> mes_de s = Some (month_names ! (m - 1))"
  using strptime_month [of s y m d] capitalize_month [of m]
  by (simp add: mes_de_def strftime_B_def)

section \<open>What a run leaves untouched\<close>

lemma asegurar_frame:
  "t \<noteq> hoja \<Longrightarrow> sheets (snd (asegurar_encabezados hoja e st)) t = sheets st t"
  "drop (Suc 0) (grid_of (snd (asegurar_encabezados hoja e st)) hoja) = drop (Suc 0) (grid_of st hoja)"
  "append_calls (snd (asegurar_encabezados hoja e st)) = append_calls st"
  by (simp_all add: asegurar_encabezados_def row_values_def Let_def append_calls_def)

lemma ultimo_numero_frame:
  "sheets (snd (ultimo_numero v hoja h st)) = sheets st"
  "append_calls (snd (ultimo_numero v hoja h st)) = append_calls st"
  by (simp_all add: ultimo_numero_def col_values_def append_calls_def split: option.splits)

lemma ids_existentes_frame:
  "sheets (snd (ids_existentes v hoja h st)) = sheets st"
  "append_calls (snd (ids_existentes v hoja h st)) = append_calls st"
  by (simp_all add: ids_existentes_def col_values_def append_calls_def split: option.splits)

lemma grid_of_cong: "sheets st' = sheets st \<Longrightarrow> grid_of st' h = grid_of st h"
  by (simp add: grid_of_def)

lemma abrir_hoja_frame:
  "t \<noteq> mes \<Longrightarrow> sheets (abrir_hoja mes st) t = sheets st t"
  "drop (Suc 0) (grid_of (abrir_hoja mes st) mes) = drop (Suc 0) (grid_of st mes)"
  "append_calls (abrir_hoja mes st) = append_calls st"
  by (auto simp: abrir_hoja_def append_calls_def grid_of_def split: option.splits)

lemma conectar_frame: "append_calls (conectar_google_sheets st) = append_calls st"
  by (simp add: conectar_google_sheets_def append_calls_def)

lemma leer_hoja_snd:
  "snd (leer_hoja v mes st) =
     (let st0 = abrir_hoja mes (conectar_google_sheets st);
          a = asegurar_encabezados mes columnas_ordenadas st0;
          u = ultimo_numero v mes (fst a) (snd a)
      in snd (ids_existentes v mes (fst a) (snd u)))"
  by (simp add: leer_hoja_def Let_def split: prod.splits)

lemma leer_hoja_frame:
  "t \<noteq> mes \<Longrightarrow> sheets (snd (leer_hoja v mes st)) t = sheets st t"
  "drop (Suc 0) (grid_of (snd (leer_hoja v mes st)) mes) = drop (Suc 0) (grid_of st mes)"
  "append_calls (snd (leer_hoja v mes st)) = append_calls st"
proof -
  let ?st0 = "abrir_hoja mes (conectar_google_sheets st)"
  let ?a = "asegurar_encabezados mes columnas_ordenadas ?st0"
  let ?u = "ultimo_numero v mes (fst ?a) (snd ?a)"
  let ?i = "ids_existentes v mes (fst ?a) (snd ?u)"
  have s: "snd (leer_hoja v mes st) = snd ?i" by (simp add: leer_hoja_snd Let_def)
  have sh: "sheets (snd ?i) = sheets (snd ?a)"
    by (simp add: ids_existentes_frame ultimo_numero_frame)
  have "sheets (snd (leer_hoja v mes st)) t = sheets (snd ?a) t"
    by (simp only: s sh)
  then show "t \<noteq> mes \<Longrightarrow> sheets (snd (leer_hoja v mes st)) t = sheets st t"
    by (simp add: asegurar_frame abrir_hoja_frame conectar_google_sheets_def)
  have "grid_of (snd ?i) mes = grid_of (snd ?a) mes"
    by (rule grid_of_cong) (rule sh)
  then show "drop (Suc 0) (grid_of (snd (leer_hoja v mes st)) mes) = drop (Suc 0) (grid_of st mes)"
    by (simp add: s asegurar_frame abrir_hoja_frame conectar_google_sheets_def)
  show "append_calls (snd (leer_hoja v mes st)) = append_calls st"
    by (simp add: s ids_existentes_frame ultimo_numero_frame asegurar_frame abrir_hoja_frame
          conectar_frame)
qed

lemma append_rows_frame:
  "append_rows hoja filas st = (r, st') \<Longrightarrow> t \<noteq> hoja \<Longrightarrow> sheets st' t = sheets st t"
  by (auto simp: append_rows_def split: option.splits)

lemma formato_sheets [simp]: "sheets (formato v hoja n st) = sheets st"
  by (simp add: formato_def Let_def split: variant.splits)

lemma guardar_frame:
  assumes "mes_de fecha = Some mes" "t \<noteq> mes"
  shows "sheets (snd (guardar_en_hoja v rs fecha st)) t = sheets st t"
proof -
  obtain u ids st1 where l: "leer_hoja v mes st = ((u, ids), st1)"
    by (metis prod.exhaust)
  have st1: "sheets st1 t = sheets st t"
    using leer_hoja_frame(1) [OF assms(2), of v st] l by simp
  show ?thesis
    using assms st1
    by (auto simp: guardar_en_hoja_def l Let_def split: prod.splits sum.splits
             dest: append_rows_frame)
qed

text \<open>
  C8. With a non-empty record list and a date string that \<open>strptime\<close> rejects,
  \<open>guardar_en_hoja\<close> leaves with the \<open>ValueError\<close> of \<open>strptime\<close> (the specification's
  \<open>InvalidDateError\<close>) and the backend is as it was, no call made. For a date that parses,
  the partition name is the English name of its month, which \<open>capitalize\<close> leaves as it is,
  computed from the string alone; the run touches no other tab.
\<close>

theorem unparsable_date_fails_before_io:
  "(resultados \<noteq> [] \<and> strptime fecha = None \<longrightarrow>
      guardar_en_hoja v resultados fecha st = (Inl ValueError, st))
   \<and> (\<forall>y m d. strptime fecha = Some (y, m, d) \<longrightarrow>
        1 \<le> m \<and> m \<le> 12 \<and> mes_de fecha = Some (month_names ! (m - 1))
        \<and> capitalize (month_names ! (m - 1)) = month_names ! (m - 1)
        \<and> (\<forall>t. t \<noteq> month_names ! (m - 1) \<longrightarrow>
              sheets (snd (guardar_en_hoja v resultados fecha st)) t = sheets st t))"
proof (intro conjI impI allI)
  assume "resultados \<noteq> [] \<and> strptime fecha = None"
  then show "guardar_en_hoja v resultados fecha st = (Inl ValueError, st)"
    by (simp add: guardar_en_hoja_def mes_de_def)
next
  fix y m d assume p: "strptime fecha = Some (y, m, d)"
  show "1 \<le> m" "m \<le> 12" using strptime_month [OF p] by simp_all
  then show "capitalize (month_names ! (m - 1)) = month_names ! (m - 1)"
    by (rule capitalize_month)
  show "mes_de fecha = Some (month_names ! (m - 1))" by (rule mes_de_month [OF p])
  fix t assume "t \<noteq> month_names ! (m - 1)"
  then show "sheets (snd (guardar_en_hoja v resultados fecha st)) t = sheets st t"
    using guardar_frame [OF mes_de_month [OF p]] by simp
qed

text \<open>
  C7. When no record survives the deduplication (the filtered frame is empty), the run
  ends with the message that there is nothing new, not with an error; it makes no
  \<open>append_rows\<close> call, the rows under the header of the tab are the ones it found, and
  the other tabs are untouched.
\<close>

theorem all_filtered_is_noop:
  assumes "resultados \<noteq> []" and "mes_de fecha = Some mes"
    and "df_empty (deduplicar (DataFrame resultados) (snd (fst (leer_hoja v mes st))))"
  shows "fst (guardar_en_hoja v resultados fecha st) = Inr NothingNew
       \<and> append_calls (snd (guardar_en_hoja v resultados fecha st)) = append_calls st
       \<and> drop 1 (grid_of (snd (guardar_en_hoja v resultados fecha st)) mes) = drop 1 (grid_of st mes)
       \<and> (\<forall>t. t \<noteq> mes \<longrightarrow> sheets (snd (guardar_en_hoja v resultados fecha st)) t = sheets st t)"
proof -
  obtain u ids st1 where l: "leer_hoja v mes st = ((u, ids), st1)"
    by (metis prod.exhaust)
  have g: "guardar_en_hoja v resultados fecha st = (Inr NothingNew, st1)"
    using assms l by (simp add: guardar_en_hoja_def)
  have "st1 = snd (leer_hoja v mes st)" using l by simp
  then show ?thesis
    using leer_hoja_frame by (simp add: g)
qed


theorem unparsable_date_fails_before_io_witness:
  "strptime ''2024-13-01'' = None
   \<and> guardar_en_hoja SheetsPy [[(''id'', Str ''A1'')]] ''2024-13-01'' hoja_agosto
        = (Inl ValueError, hoja_agosto)
   \<and> strptime ''2024-08-15'' = Some (2024, 8, 15)
   \<and> mes_de ''2024-08-15'' = Some ''August''
   \<and> sheets (snd (guardar_en_hoja SheetsPy [[(''id'', Str ''A1'')]] ''2024-08-15'' hoja_agosto)) ''July''
        = None"
proof -
  have a: "strptime ''2024-13-01'' = None" by code_simp
  have b: "strptime ''2024-08-15'' = Some (2024, 8, 15)" by code_simp
  have c: "month_names ! 7 = ''August''" by code_simp
  have d: "''July'' \<noteq> ''August''" by simp
  have e: "sheets hoja_agosto ''July'' = None" by (simp add: hoja_agosto_def)
  show ?thesis
    using unparsable_date_fails_before_io
            [of "[[(''id'', Str ''A1'')]]" "''2024-13-01''" SheetsPy hoja_agosto]
          unparsable_date_fails_before_io
            [of "[[(''id'', Str ''A1'')]]" "''2024-08-15''" SheetsPy hoja_agosto]
    unfolding a b by (simp add: c e)
qed

theorem all_filtered_is_noop_witness:
  "mes_de ''2024-08-15'' = Some ''August''
   \<and> df_empty (deduplicar (DataFrame [[(''id'', Str ''A1''), (''titulo'', Str ''X'')]])
                 (snd (fst (leer_hoja ScrapingPy ''August'' hoja_agosto))))
   \<and> fst (guardar_en_hoja ScrapingPy [[(''id'', Str ''A1''), (''titulo'', Str ''X'')]]
             ''2024-08-15'' hoja_agosto) = Inr NothingNew
   \<and> drop 1 (grid_of (snd (guardar_en_hoja ScrapingPy
             [[(''id'', Str ''A1''), (''titulo'', Str ''X'')]] ''2024-08-15'' hoja_agosto)) ''August'')
        = [[''5'', [], [], ''A1'']]"
proof -
  have a: "[[(''id'', Str ''A1''), (''titulo'', Str ''X'')]] \<noteq> []" by simp
  have b: "mes_de ''2024-08-15'' = Some ''August''" by code_simp
  have c: "df_empty (deduplicar (DataFrame [[(''id'', Str ''A1''), (''titulo'', Str ''X'')]])
                 (snd (fst (leer_hoja ScrapingPy ''August'' hoja_agosto))))"
    by code_simp
  have d: "drop 1 (grid_of hoja_agosto ''August'') = [[''5'', [], [], ''A1'']]"
    by (simp add: hoja_agosto_def grid_of_def)
  show ?thesis
    using all_filtered_is_noop [OF a b c] b c d by simp
qed

section \<open>Deduplication\<close>

lemma set_fold_add_col: "set (fold (\<lambda>k cs. add_col cs k) ks cs) = set cs \<union> set ks"
  by (induction ks arbitrary: cs) (auto simp: add_col_def)

lemma columns_DataFrame_aux:
  "set (fold (\<lambda>r cs. fold (\<lambda>k cs. add_col cs k) (map fst r) cs) rs cs)
     = set cs \<union> (\<Union>r\<in>set rs. fst ` set r)"
  by (induction rs arbitrary: cs) (auto simp: set_fold_add_col)

lemma columns_DataFrame: "set (columns (DataFrame rs)) = (\<Union>r\<in>set rs. fst ` set r)"
  by (simp add: DataFrame_def columns_DataFrame_aux)

lemma rows_DataFrame:
  "rows (DataFrame rs) = map (\<lambda>i. (i, record_row (rs ! i))) [0..<length rs]"
  by (rule nth_equalityI) (simp_all add: DataFrame_def nth_enumerate_eq)

lemma rows_deduplicar:
  "rows (deduplicar df ids) =
     (if ''id'' \<in> set (columns df) then filter (\<lambda>(l, r). \<not> isin ids (r ''id'')) (rows df)
      else rows df)"
  by (simp add: deduplicar_def)

lemma columns_deduplicar [simp]: "columns (deduplicar df ids) = columns df"
  by (simp add: deduplicar_def)

text \<open>
  C5. A record that carries the field \<open>id\<close> is dropped by the deduplication exactly when
  its identifier is a string that is a member of the recovered set, by plain string
  equality (nothing is trimmed or case-folded on the incoming side); a record that is
  kept stays as it came. The recovered set holds the trimmed, non-empty cells under the
  header of the identifier column, and is empty when no header matches.
\<close>

theorem dedup_by_stored_identifier:
  assumes "i < length resultados" and "''id'' \<in> fst ` set (resultados ! i)"
  shows "(i \<notin> fst ` set (rows (deduplicar (DataFrame resultados) ids))
            \<longleftrightarrow> (\<exists>s. map_of (resultados ! i) ''id'' = Some (Str s) \<and> s \<in> ids))
       \<and> (i \<in> fst ` set (rows (deduplicar (DataFrame resultados) ids))
            \<longleftrightarrow> (i, record_row (resultados ! i)) \<in> set (rows (deduplicar (DataFrame resultados) ids)))
       \<and> fst (ids_existentes v hoja headers st) =
           (case find_header_idx v headers id_aliases of
              None \<Rightarrow> {}
            | Some idx \<Rightarrow>
                {strip c |c. c \<in> set (drop 1 (grid_col (grid_of st hoja) (idx + 1)))
                            \<and> strip c \<noteq> []})"
proof -
  have col: "''id'' \<in> set (columns (DataFrame resultados))"
    using assms by (auto simp: columns_DataFrame intro: nth_mem)
  have r: "rows (deduplicar (DataFrame resultados) ids)
             = filter (\<lambda>(l, r). \<not> isin ids (r ''id''))
                 (map (\<lambda>i. (i, record_row (resultados ! i))) [0..<length resultados])"
    using col by (simp add: rows_deduplicar rows_DataFrame)
  have m: "isin ids (record_row (resultados ! i) ''id'')
             \<longleftrightarrow> (\<exists>s. map_of (resultados ! i) ''id'' = Some (Str s) \<and> s \<in> ids)"
    by (auto simp: isin_def record_row_def split: pyval.splits option.splits)
  have 1: "i \<notin> fst ` set (rows (deduplicar (DataFrame resultados) ids))
            \<longleftrightarrow> isin ids (record_row (resultados ! i) ''id'')"
    using assms(1) by (auto simp: r image_iff)
  have 2: "i \<in> fst ` set (rows (deduplicar (DataFrame resultados) ids))
            \<longleftrightarrow> (i, record_row (resultados ! i)) \<in> set (rows (deduplicar (DataFrame resultados) ids))"
    using assms(1) by (auto simp: r image_iff)
  have 3: "fst (ids_existentes v hoja headers st) =
           (case find_header_idx v headers id_aliases of
              None \<Rightarrow> {}
            | Some idx \<Rightarrow>
                {strip c |c. c \<in> set (drop 1 (grid_col (grid_of st hoja) (idx + 1)))
                            \<and> strip c \<noteq> []})"
    by (auto simp: ids_existentes_def col_values_def split: option.splits)
  show ?thesis using 1 2 3 m by simp
qed


theorem dedup_by_stored_identifier_witness:
  "fst (ids_existentes SheetsPy ''August'' [''Id'', ''Nro'', ''Notas''] hoja_editada)
     = {''A1'', ''A2'', ''A3'', ''A4''}
   \<and> 0 \<notin> fst ` set (rows (deduplicar
          (DataFrame [[(''id'', Str ''A1'')], [(''id'', Str '' A2'')], [(''id'', Str ''a3'')]])
          {''A1'', ''A2'', ''A3'', ''A4''}))
   \<and> 1 \<in> fst ` set (rows (deduplicar
          (DataFrame [[(''id'', Str ''A1'')], [(''id'', Str '' A2'')], [(''id'', Str ''a3'')]])
          {''A1'', ''A2'', ''A3'', ''A4''}))
   \<and> 2 \<in> fst ` set (rows (deduplicar
          (DataFrame [[(''id'', Str ''A1'')], [(''id'', Str '' A2'')], [(''id'', Str ''a3'')]])
          {''A1'', ''A2'', ''A3'', ''A4''}))"
proof -
  let ?rs = "[[(''id'', Str ''A1'')], [(''id'', Str '' A2'')], [(''id'', Str ''a3'')]]"
  let ?ids = "{''A1'', ''A2'', ''A3'', ''A4''}"
  have a: "find_header_idx SheetsPy [''Id'', ''Nro'', ''Notas''] id_aliases = Some 0"
    by code_simp
  have b: "drop 1 (grid_col (grid_of hoja_editada ''August'') (0 + 1))
             = [''A1'', ''  A2 '', [], ''A3'', ''A4'']"
    by code_simp
  have s: "strip ''A1'' = ''A1''" "strip ''  A2 '' = ''A2''" "strip [] = []"
          "strip ''A3'' = ''A3''" "strip ''A4'' = ''A4''"
    by code_simp+
  have i0: "0 < length ?rs" "''id'' \<in> fst ` set (?rs ! 0)" by simp_all
  have i1: "1 < length ?rs" "''id'' \<in> fst ` set (?rs ! 1)" by simp_all
  have i2: "2 < length ?rs" "''id'' \<in> fst ` set (?rs ! 2)" by simp_all
  have "{strip c |c. c \<in> set [''A1'', ''  A2 '', [], ''A3'', ''A4''] \<and> strip c \<noteq> []}
          = set (map strip (filter (\<lambda>c. strip c \<noteq> []) [''A1'', ''  A2 '', [], ''A3'', ''A4'']))"
    by auto
  also have "\<dots> = ?ids"
    by (simp add: s)
  finally have e: "{strip c |c. c \<in> set [''A1'', ''  A2 '', [], ''A3'', ''A4''] \<and> strip c \<noteq> []}
          = ?ids" .
  have "fst (ids_existentes SheetsPy ''August'' [''Id'', ''Nro'', ''Notas''] hoja_editada) = ?ids"
    using dedup_by_stored_identifier [OF i0, of ?ids SheetsPy "''August''" "[''Id'', ''Nro'', ''Notas'']" hoja_editada]
    unfolding a b option.case e by simp
  moreover have "0 \<notin> fst ` set (rows (deduplicar (DataFrame ?rs) ?ids))"
    using dedup_by_stored_identifier [OF i0, of ?ids SheetsPy "''August''" "[]" hoja_editada]
    by simp
  moreover have "1 \<in> fst ` set (rows (deduplicar (DataFrame ?rs) ?ids))"
    using dedup_by_stored_identifier [OF i1, of ?ids SheetsPy "''August''" "[]" hoja_editada]
    by simp
  moreover have "2 \<in> fst ` set (rows (deduplicar (DataFrame ?rs) ?ids))"
    using dedup_by_stored_identifier [OF i2, of ?ids SheetsPy "''August''" "[]" hoja_editada]
    by simp
  ultimately show ?thesis by simp
qed

section \<open>The rows a run emits\<close>

lemma set_add_col [simp]: "set (add_col cs c) = insert c (set cs)"
  by (auto simp: add_col_def)

lemma columns_setitem [simp]: "set (columns (df_setitem d c x)) = insert c (set (columns d))"
  by (cases x) (auto simp: add_col_def)

lemma map_of_series: "map_of (map (\<lambda>(l, r). (l, r c)) xs) l = map_option (\<lambda>r. r c) (map_of xs l)"
  by (induction xs) auto

lemma rows_setitem_get:
  "rows (df_setitem out col (df_get df campo (Str []))) =
     map (\<lambda>(l, r). (l, r(col := colval df campo l))) (rows out)"
  by (auto simp: df_get_def colval_def map_of_series split: option.splits)

lemma labels_setitem_get [simp]:
  "map fst (rows (df_setitem out col (df_get df campo (Str [])))) = map fst (rows out)"
  by (simp add: rows_setitem_get case_prod_beta comp_def)

lemma fold_sheets_rows:
  "rows (fold (\<lambda>p out. df_setitem out (fst p) (df_get df (snd p) (Str []))) ps out) =
     map (\<lambda>x. (fst x, fold (\<lambda>p r. r(fst p := colval df (snd p) (fst x))) ps (snd x))) (rows out)"
proof (induction ps arbitrary: out)
  case Nil
  then show ?case by simp
next
  case (Cons p ps)
  let ?F = "\<lambda>p out. df_setitem out (fst p) (df_get df (snd p) (Str []))"
  have "rows (fold ?F (p # ps) out) = rows (fold ?F ps (?F p out))"
    by simp
  also have "\<dots> = map (\<lambda>x. (fst x, fold (\<lambda>p r. r(fst p := colval df (snd p) (fst x))) ps (snd x)))
                     (rows (?F p out))"
    by (rule Cons.IH)
  also have "rows (?F p out) = map (\<lambda>x. (fst x, (snd x)(fst p := colval df (snd p) (fst x)))) (rows out)"
    by (simp add: rows_setitem_get case_prod_beta)
  finally show ?case by (simp only: map_map comp_def fst_conv snd_conv fold_simps)
qed

lemma fold_columns:
  "set (columns (fold (\<lambda>p d. df_setitem d (fst p) (g d (snd p))) ps d))
     = set (columns d) \<union> fst ` set ps"
  by (induction ps arbitrary: d) auto

lemma colval_self:
  assumes "distinct (map fst (rows d))" "(l, r) \<in> set (rows d)"
  shows "colval d campo l = (if campo \<in> set (columns d) then r campo else Str [])"
  using assms by (simp add: colval_def)

lemma rows_setitem_get_self:
  assumes "distinct (map fst (rows d))"
  shows "rows (df_setitem d col (df_get d campo (Str []))) =
     map (\<lambda>x. (fst x, (snd x)(col := if campo \<in> set (columns d) then snd x campo else Str []))) (rows d)"
  unfolding rows_setitem_get
  by (rule map_cong) (auto simp: colval_self [OF assms])

lemma fold_upd_cong:
  assumes "\<forall>p\<in>set ps. snd p \<noteq> c"
  shows "fold (\<lambda>p r. r(fst p := if snd p \<in> insert c C then r (snd p) else x)) ps r0
       = fold (\<lambda>p r. r(fst p := if snd p \<in> C then r (snd p) else x)) ps r0"
proof (rule fold_cong [OF refl refl])
  fix p assume "p \<in> set ps"
  then have "snd p \<noteq> c" using assms by simp
  then show "(\<lambda>r. r(fst p := if snd p \<in> insert c C then r (snd p) else x))
           = (\<lambda>r. r(fst p := if snd p \<in> C then r (snd p) else x))"
    by simp
qed

lemma fold_scraping_rows:
  assumes "distinct (map fst (rows d))" "\<forall>p\<in>set ps. snd p \<notin> fst ` set ps"
  shows "rows (fold (\<lambda>p d. df_setitem d (fst p) (df_get d (snd p) (Str []))) ps d) =
     map (\<lambda>x. (fst x, fold (\<lambda>p r.
            r(fst p := if snd p \<in> set (columns d) then r (snd p) else Str [])) ps (snd x))) (rows d)"
  using assms
proof (induction ps arbitrary: d)
  case Nil
  then show ?case by simp
next
  case (Cons p ps)
  let ?F = "\<lambda>p d. df_setitem d (fst p) (df_get d (snd p) (Str []))"
  let ?G = "\<lambda>C p r. r(fst p := if snd p \<in> C then r (snd p) else Str [])"
  let ?d = "?F p d"
  have d: "distinct (map fst (rows ?d))" using Cons.prems(1) by simp
  have q: "\<forall>p\<in>set ps. snd p \<notin> fst ` set ps" using Cons.prems(2) by auto
  have c: "\<forall>q\<in>set ps. snd q \<noteq> fst p" using Cons.prems(2) by auto
  have cols: "set (columns ?d) = insert (fst p) (set (columns d))" by simp
  have "rows (fold ?F (p # ps) d) = rows (fold ?F ps ?d)"
    by simp
  also have "\<dots> = map (\<lambda>x. (fst x, fold (?G (set (columns ?d))) ps (snd x))) (rows ?d)"
    by (rule Cons.IH [OF d q])
  also have "\<dots> = map (\<lambda>x. (fst x, fold (?G (set (columns d))) ps (snd x))) (rows ?d)"
    unfolding cols fold_upd_cong [OF c] ..
  also have "rows ?d = map (\<lambda>x. (fst x, ?G (set (columns d)) p (snd x))) (rows d)"
    by (rule rows_setitem_get_self [OF Cons.prems(1)])
  finally show ?case by (simp only: map_map comp_def fst_conv snd_conv fold_simps)
qed

lemma completar_id:
  assumes "set columnas_ordenadas \<subseteq> set (columns d)"
  shows "completar d = d"
proof -
  have "set cs \<subseteq> set (columns d) \<Longrightarrow>
        fold (\<lambda>col d. if col \<notin> set (columns d) then df_setitem d col (Scalar (Str [])) else d) cs d = d"
    for cs
    by (induction cs) auto
  then show ?thesis using assms by (simp add: completar_def)
qed


lemma columnas_campos: "columnas_ordenadas = col_numero # map fst campos"
  by (simp add: columnas_ordenadas_def campos_def)

lemma distinct_columnas: "distinct columnas_ordenadas"
  by (simp add: columnas_ordenadas_def col_numero_def)

lemma campos_not_columnas: "\<forall>p\<in>set campos. snd p \<notin> set columnas_ordenadas"
  by (simp add: columnas_ordenadas_def campos_def col_numero_def)

lemma fold_upd_const_other:
  "c \<notin> fst ` set ps \<Longrightarrow> fold (\<lambda>p r. r(fst p := f (snd p))) ps r c = r c"
proof (induction ps arbitrary: r)
  case Nil
  then show ?case by simp
next
  case (Cons p ps)
  have "fold (\<lambda>p r. r(fst p := f (snd p))) ps (r(fst p := f (snd p))) c
          = (r(fst p := f (snd p))) c"
    using Cons.prems by (intro Cons.IH) simp
  then show ?case using Cons.prems by (simp del: fun_upd_apply) simp
qed

lemma fold_upd_const_map:
  "distinct (map fst ps) \<Longrightarrow>
     map (fold (\<lambda>p r. r(fst p := f (snd p))) ps r) (map fst ps) = map (\<lambda>p. f (snd p)) ps"
proof (induction ps arbitrary: r)
  case Nil
  then show ?case by simp
next
  case (Cons p ps)
  have "fold (\<lambda>p r. r(fst p := f (snd p))) ps (r(fst p := f (snd p))) (fst p)
          = (r(fst p := f (snd p))) (fst p)"
    using Cons.prems by (intro fold_upd_const_other) simp
  then have 1: "fold (\<lambda>p r. r(fst p := f (snd p))) ps (r(fst p := f (snd p))) (fst p) = f (snd p)"
    by simp
  have 2: "map (fold (\<lambda>p r. r(fst p := f (snd p))) ps (r(fst p := f (snd p)))) (map fst ps)
             = map (\<lambda>p. f (snd p)) ps"
    using Cons.prems by (intro Cons.IH) simp
  show ?case
    by (simp only: fold_simps list.map 1 2)
qed

lemma fold_upd_self_const:
  assumes "\<forall>p\<in>set ps. snd p \<notin> W \<union> fst ` set ps" "\<forall>c. c \<notin> W \<longrightarrow> r c = r0 c"
  shows "fold (\<lambda>p r. r(fst p := if snd p \<in> C then r (snd p) else Str [])) ps r
       = fold (\<lambda>p r. r(fst p := (\<lambda>campo. if campo \<in> C then r0 campo else Str []) (snd p))) ps r"
  using assms
proof (induction ps arbitrary: r W)
  case Nil
  then show ?case by simp
next
  case (Cons p ps)
  have rp: "r (snd p) = r0 (snd p)" using Cons.prems by simp
  have 1: "\<forall>q\<in>set ps. snd q \<notin> insert (fst p) W \<union> fst ` set ps"
    using Cons.prems(1) by auto
  have 2: "\<forall>c. c \<notin> insert (fst p) W \<longrightarrow>
             (r(fst p := if snd p \<in> C then r0 (snd p) else Str [])) c = r0 c"
    using Cons.prems(2) by simp
  show ?case
    using Cons.IH [OF 1 2] by (simp only: fold_simps rp)
qed

lemma fila_from_fold:
  assumes "r col_numero = Num (int n)"
  shows "map (fold (\<lambda>p r. r(fst p := f (snd p))) campos r) columnas_ordenadas
       = Num (int n) # map (\<lambda>p. f (snd p)) campos"
proof -
  have d: "distinct (map fst campos)" and n: "col_numero \<notin> fst ` set campos"
    using distinct_columnas by (simp_all add: columnas_campos)
  show ?thesis
    by (simp only: columnas_campos list.map fold_upd_const_map [OF d]
          fold_upd_const_other [OF n] assms)
qed

lemma rows_setitem_range:
  "rows (df_setitem df c (Range a (a + length (rows df)))) =
     map (\<lambda>x. (fst (snd x), (snd (snd x))(c := Num (int (a + fst x))))) (enumerate 0 (rows df))"
  by (simp add: case_prod_beta)

lemma rows_setitem_range_new:
  "rows (df_setitem \<lparr>columns = [], rows = []\<rparr> c (Range a (a + k))) =
     map (\<lambda>i. (i, (\<lambda>_. NaN)(c := Num (int (a + i))))) [0..<k]"
  by simp

lemma filas_nuevas_sheets:
  "filas_nuevas SheetsPy df ultimo =
     map (\<lambda>i. Num (int (ultimo + 1 + i)) # map (\<lambda>p. colval df (snd p) i) campos)
       [0..<length (rows df)]"
proof -
  let ?out0 = "df_setitem \<lparr>columns = [], rows = []\<rparr> col_numero
                 (Range (ultimo + 1) (ultimo + 1 + length (rows df)))"
  let ?F = "\<lambda>p out. df_setitem out (fst p) (df_get df (snd p) (Str []))"
  have m: "mapear SheetsPy df ultimo = fold ?F campos ?out0"
    by (simp only: mapear_def Let_def case_prod_unfold variant.case)
  have cols: "set columnas_ordenadas \<subseteq> set (columns (fold ?F campos ?out0))"
    unfolding fold_columns [of "\<lambda>d c. df_get df c (Str [])"] by (auto simp: columnas_campos)
  have "filas_nuevas SheetsPy df ultimo
          = map (\<lambda>x. map (snd x) columnas_ordenadas) (rows (fold ?F campos ?out0))"
    by (simp only: filas_nuevas_def m completar_id [OF cols] values_tolist_def case_prod_unfold)
  also have "\<dots> = map (\<lambda>i. map (fold (\<lambda>p r. r(fst p := colval df (snd p) i)) campos
                              ((\<lambda>_. NaN)(col_numero := Num (int (ultimo + 1 + i)))))
                           columnas_ordenadas) [0..<length (rows df)]"
    unfolding fold_sheets_rows rows_setitem_range_new
    by (simp only: map_map comp_def fst_conv snd_conv)
  also have "\<dots> = map (\<lambda>i. Num (int (ultimo + 1 + i)) # map (\<lambda>p. colval df (snd p) i) campos)
                       [0..<length (rows df)]"
    by (rule map_cong [OF refl]) (rule fila_from_fold, simp)
  finally show ?thesis .
qed

lemma filas_nuevas_scraping:
  assumes "distinct (map fst (rows df))"
  shows "filas_nuevas ScrapingPy df ultimo = filas_esperadas df ultimo"
proof -
  let ?d0 = "df_setitem df col_numero (Range (ultimo + 1) (ultimo + 1 + length (rows df)))"
  let ?F = "\<lambda>p d. df_setitem d (fst p) (df_get d (snd p) (Str []))"
  let ?G = "\<lambda>C p r. r(fst p := if snd p \<in> C then r (snd p) else Str [])"
  let ?h = "\<lambda>r campo. if campo \<in> set (columns df) then r campo else Str []"
  have m: "mapear ScrapingPy df ultimo = fold ?F campos ?d0"
    by (simp only: mapear_def Let_def case_prod_unfold variant.case)
  have cols: "set columnas_ordenadas \<subseteq> set (columns (fold ?F campos ?d0))"
    unfolding fold_columns [of "\<lambda>d c. df_get d c (Str [])"] by (auto simp: columnas_campos)
  have r0: "rows ?d0 = map (\<lambda>x. (fst (snd x), (snd (snd x))(col_numero := Num (int (ultimo + 1 + fst x)))))
                        (enumerate 0 (rows df))"
    by (rule rows_setitem_range)
  have "map fst (rows ?d0) = map fst (map snd (enumerate 0 (rows df)))"
    unfolding r0 by (simp only: map_map comp_def fst_conv)
  then have "map fst (rows ?d0) = map fst (rows df)"
    by (simp only: map_snd_enumerate)
  then have d0: "distinct (map fst (rows ?d0))" using assms by simp
  have rw: "\<forall>p\<in>set campos. snd p \<notin> fst ` set campos"
    using campos_not_columnas by (simp add: columnas_campos)
  have "filas_nuevas ScrapingPy df ultimo
          = map (\<lambda>x. map (snd x) columnas_ordenadas) (rows (fold ?F campos ?d0))"
    by (simp only: filas_nuevas_def m completar_id [OF cols] values_tolist_def case_prod_unfold)
  also have "\<dots> = map (\<lambda>x. map (fold (?G (set (columns ?d0))) campos
                  ((snd (snd x))(col_numero := Num (int (ultimo + 1 + fst x))))) columnas_ordenadas)
                 (enumerate 0 (rows df))"
    unfolding fold_scraping_rows [OF d0 rw] r0
    by (simp only: map_map comp_def fst_conv snd_conv)
  also have "\<dots> = map (\<lambda>x. fila_esperada (columns df) (ultimo + 1 + fst x) (snd (snd x)))
                 (enumerate 0 (rows df))"
  proof (rule map_cong [OF refl])
    fix x :: "nat \<times> nat \<times> (string \<Rightarrow> pyval)"
    let ?r = "snd (snd x)" and ?n = "ultimo + 1 + fst x"
    let ?r1 = "fun_upd ?r col_numero (Num (int ?n))"
    have a: "\<forall>p\<in>set campos. snd p \<notin> {col_numero} \<union> fst ` set campos"
      using campos_not_columnas by (simp add: columnas_campos)
    have b: "\<forall>c. c \<notin> {col_numero} \<longrightarrow> ?r1 c = ?r c" by simp
    have c: "\<forall>p\<in>set campos. snd p \<noteq> col_numero"
      using campos_not_columnas by (simp add: columnas_campos)
    have "fold (?G (set (columns ?d0))) campos ?r1 = fold (?G (set (columns df))) campos ?r1"
      using fold_upd_cong [OF c, of "set (columns df)" "Str []" ?r1] by simp
    also have "\<dots> = fold (\<lambda>p r. r(fst p := ?h ?r (snd p))) campos ?r1"
      by (rule fold_upd_self_const [OF a b])
    finally have e: "fold (?G (set (columns ?d0))) campos ?r1
                       = fold (\<lambda>p r. r(fst p := ?h ?r (snd p))) campos ?r1" .
    have "map (fold (?G (set (columns ?d0))) campos ?r1) columnas_ordenadas
            = Num (int ?n) # map (\<lambda>p. ?h ?r (snd p)) campos"
      unfolding e by (rule fila_from_fold) simp
    then show "map (fold (?G (set (columns ?d0))) campos ?r1) columnas_ordenadas
            = fila_esperada (columns df) ?n ?r"
      by (simp add: fila_esperada_def case_prod_beta)
  qed
  finally show ?thesis by (simp add: filas_esperadas_def case_prod_beta)
qed

lemma those_eq_None: "those xs = None \<longleftrightarrow> None \<in> set xs"
  by (induction xs) (auto split: option.splits)

lemma render_eq_None: "render c = None \<longleftrightarrow> c = NaN"
  by (cases c) simp_all

lemma render_rows_no_NaN:
  assumes "render_rows filas \<noteq> None" "fila \<in> set filas"
  shows "NaN \<notin> set fila"
proof
  assume n: "NaN \<in> set fila"
  then have "None \<in> set (map render fila)" by (force simp: render_eq_None [symmetric])
  then have "those (map render fila) = None" by (simp add: those_eq_None)
  then have "None \<in> set (map (\<lambda>f. those (map render f)) filas)"
    using assms(2) by force
  then show False using assms(1) by (simp add: render_rows_def those_eq_None)
qed

lemma labels_upt:
  assumes "sorted_wrt (<) (ls :: nat list)" "{0..<length ls} \<subseteq> set ls"
  shows "ls = [0..<length ls]"
proof -
  have d: "distinct ls" and s: "sorted ls" using assms(1) by (simp_all add: strict_sorted_iff)
  have "card (set ls) = length ls" using d by (rule distinct_card)
  then have "set ls = {0..<length ls}"
    using assms(2) by (metis card_atLeastLessThan card_subset_eq List.finite_set diff_zero)
  then have "set ls = set [0..<length ls]" by simp
  then show ?thesis
    using d s by (intro sorted_distinct_set_unique) simp_all
qed

lemma filas_nuevas_sheets_aligned:
  assumes srt: "sorted_wrt (<) (map fst (rows df))"
    and ok: "render_rows (filas_nuevas SheetsPy df u) \<noteq> None"
  shows "filas_nuevas SheetsPy df u = filas_esperadas df u"
proof -
  let ?k = "length (rows df)"
  have dist: "distinct (map fst (rows df))" using srt by (simp add: strict_sorted_iff)
  have row: "colval df campo i = (if campo \<in> set (columns df) then snd (rows df ! i) campo else Str [])"
    if i: "i < ?k" and p: "(col, campo) \<in> set campos" for i col campo
  proof (cases "\<exists>q\<in>set campos. snd q \<in> set (columns df)")
    case False
    then show ?thesis using p by (force simp: colval_def)
  next
    case True
    then obtain q where q: "q \<in> set campos" "snd q \<in> set (columns df)" by blast
    have "j \<in> fst ` set (rows df)" if j: "j < ?k" for j
    proof -
      let ?fila = "Num (int (u + 1 + j)) # map (\<lambda>p. colval df (snd p) j) campos"
      have "?fila \<in> set (filas_nuevas SheetsPy df u)"
        using j by (auto simp: filas_nuevas_sheets)
      then have "NaN \<notin> set ?fila" by (rule render_rows_no_NaN [OF ok])
      then have "colval df (snd q) j \<noteq> NaN" using q(1) by force
      then have "map_of (rows df) j \<noteq> None" using q(2) by (auto simp: colval_def split: option.splits)
      then show ?thesis by (simp add: map_of_eq_None_iff)
    qed
    then have "{0..<length (map fst (rows df))} \<subseteq> set (map fst (rows df))" by auto
    then have "map fst (rows df) = [0..<length (map fst (rows df))]"
      by (rule labels_upt [OF srt])
    then have l: "map fst (rows df) = [0..<?k]" by simp
    have "fst (rows df ! i) = i"
      using i arg_cong [OF l, of "\<lambda>xs. xs ! i"] by simp
    then have "(i, snd (rows df ! i)) \<in> set (rows df)"
      using i by (metis nth_mem prod.collapse)
    then have "map_of (rows df) i = Some (snd (rows df ! i))"
      using dist by simp
    then show ?thesis by (simp add: colval_def)
  qed
  show ?thesis
  proof (rule nth_equalityI)
    show "length (filas_nuevas SheetsPy df u) = length (filas_esperadas df u)"
      by (simp add: filas_nuevas_sheets filas_esperadas_def)
  next
    fix i assume "i < length (filas_nuevas SheetsPy df u)"
    then have i: "i < ?k" by (simp add: filas_nuevas_sheets)
    have "map (\<lambda>p. colval df (snd p) i) campos
            = map (\<lambda>p. if snd p \<in> set (columns df) then snd (rows df ! i) (snd p) else Str []) campos"
      by (rule map_cong [OF refl]) (use row [OF i] in \<open>metis prod.collapse\<close>)
    then show "filas_nuevas SheetsPy df u ! i = filas_esperadas df u ! i"
      using i by (simp add: filas_nuevas_sheets filas_esperadas_def fila_esperada_def
                    nth_enumerate_eq case_prod_beta)
  qed
qed


lemma labels_deduplicar:
  "sorted_wrt (<) (map fst (rows (deduplicar (DataFrame rs) ids)))"
proof -
  have base: "sorted_wrt (<) (map fst (rows (DataFrame rs)))"
    by (simp add: rows_DataFrame comp_def)
  then have "sorted_wrt (\<lambda>x y. fst x < fst y) (rows (DataFrame rs))"
    by (simp add: sorted_wrt_map)
  then have "sorted_wrt (\<lambda>x y. fst x < fst y) (filter P (rows (DataFrame rs)))" for P
    by (rule sorted_wrt_filter)
  then have "sorted_wrt (<) (map fst (filter P (rows (DataFrame rs))))" for P
    by (simp add: sorted_wrt_map)
  then show ?thesis
    using base by (simp add: rows_deduplicar del: sorted_wrt_map)
qed

lemma rows_deduplicar_subset:
  "(l, r) \<in> set (rows (deduplicar (DataFrame rs) ids)) \<Longrightarrow> l < length rs \<and> r = record_row (rs ! l)"
  by (auto simp: rows_deduplicar rows_DataFrame split: if_splits)

lemma filas_nuevas_ok:
  assumes "render_rows (filas_nuevas v (deduplicar (DataFrame rs) ids) u) \<noteq> None"
  shows "filas_nuevas v (deduplicar (DataFrame rs) ids) u
           = filas_esperadas (deduplicar (DataFrame rs) ids) u"
proof (cases v)
  case SheetsPy
  then show ?thesis
    using assms filas_nuevas_sheets_aligned [OF labels_deduplicar] by simp
next
  case ScrapingPy
  have "distinct (map fst (rows (deduplicar (DataFrame rs) ids)))"
    using labels_deduplicar [of rs ids] by (simp add: strict_sorted_iff)
  then show ?thesis using ScrapingPy by (simp add: filas_nuevas_scraping)
qed

lemma guardar_saved:
  assumes "fst (guardar_en_hoja v rs fecha st) = Inr (Saved k mes)"
  shows "rs \<noteq> [] \<and> mes_de fecha = Some mes"
    and "\<not> df_empty (deduplicar (DataFrame rs) (snd (fst (leer_hoja v mes st))))"
    and "\<exists>g. render_rows (filas_nuevas v (deduplicar (DataFrame rs) (snd (fst (leer_hoja v mes st))))
                 (fst (fst (leer_hoja v mes st)))) = Some g
           \<and> grid_of (snd (guardar_en_hoja v rs fecha st)) mes
               = grid_of (snd (leer_hoja v mes st)) mes @ g"
    and "k = length (filas_nuevas v (deduplicar (DataFrame rs) (snd (fst (leer_hoja v mes st))))
                 (fst (fst (leer_hoja v mes st))))"
proof -
  have 1: "rs \<noteq> []" using assms by (auto simp: guardar_en_hoja_def)
  obtain m where m: "mes_de fecha = Some m"
    using assms 1 by (cases "mes_de fecha") (auto simp: guardar_en_hoja_def)
  obtain u ids st1 where l: "leer_hoja v m st = ((u, ids), st1)"
    by (metis prod.exhaust)
  have e: "\<not> df_empty (deduplicar (DataFrame rs) ids)"
    using assms 1 by (auto simp: guardar_en_hoja_def m l)
  obtain res st2 where a: "append_rows m (filas_nuevas v (deduplicar (DataFrame rs) ids) u) st1 = (res, st2)"
    by (metis prod.exhaust)
  have g: "guardar_en_hoja v rs fecha st =
             (case res of Inl e \<Rightarrow> (Inl e, st2)
              | Inr x \<Rightarrow> (Inr (Saved (length (filas_nuevas v (deduplicar (DataFrame rs) ids) u)) m),
                           formato v m (length (filas_nuevas v (deduplicar (DataFrame rs) ids) u)) st2))"
    using 1 e by (simp add: guardar_en_hoja_def m l a Let_def split: sum.splits)
  from g assms obtain x where r: "res = Inr x"
    and km: "k = length (filas_nuevas v (deduplicar (DataFrame rs) ids) u)" "mes = m"
    by (cases res) auto
  from a r obtain gr where gr: "render_rows (filas_nuevas v (deduplicar (DataFrame rs) ids) u) = Some gr"
    and st2: "st2 = called (AppendRows m (filas_nuevas v (deduplicar (DataFrame rs) ids) u))
                      (st1\<lparr>sheets := (sheets st1)(m \<mapsto> grid_of st1 m @ gr)\<rparr>)"
    by (auto simp: append_rows_def split: option.splits)
  have "grid_of (snd (guardar_en_hoja v rs fecha st)) m = grid_of st1 m @ gr"
    by (simp add: g r st2 grid_of_def)
  then show "rs \<noteq> [] \<and> mes_de fecha = Some mes"
    and "\<not> df_empty (deduplicar (DataFrame rs) (snd (fst (leer_hoja v mes st))))"
    and "\<exists>g. render_rows (filas_nuevas v (deduplicar (DataFrame rs) (snd (fst (leer_hoja v mes st))))
                 (fst (fst (leer_hoja v mes st)))) = Some g
           \<and> grid_of (snd (guardar_en_hoja v rs fecha st)) mes
               = grid_of (snd (leer_hoja v mes st)) mes @ g"
    and "k = length (filas_nuevas v (deduplicar (DataFrame rs) (snd (fst (leer_hoja v mes st))))
                 (fst (fst (leer_hoja v mes st))))"
    using 1 m e km gr by (simp_all add: l)
qed

lemma filas_nuevas_scraping_dedup:
  "filas_nuevas ScrapingPy (deduplicar (DataFrame rs) ids) u
     = filas_esperadas (deduplicar (DataFrame rs) ids) u"
proof -
  have "distinct (map fst (rows (deduplicar (DataFrame rs) ids)))"
    using labels_deduplicar [of rs ids] by (simp add: strict_sorted_iff)
  then show ?thesis by (rule filas_nuevas_scraping)
qed

lemma primer_numero:
  assumes "rows (deduplicar (DataFrame rs) ids) \<noteq> []"
  shows "hd (hd (filas_nuevas v (deduplicar (DataFrame rs) ids) u)) = Num (int u + 1)"
proof -
  let ?df = "deduplicar (DataFrame rs) ids"
  have k: "0 < length (rows ?df)" using assms by simp
  show ?thesis
  proof (cases v)
    case SheetsPy
    have "filas_nuevas SheetsPy ?df u ! 0
            = Num (int (u + 1 + 0)) # map (\<lambda>p. colval ?df (snd p) 0) campos"
      unfolding filas_nuevas_sheets using k by (subst nth_map) simp_all
    moreover have "filas_nuevas SheetsPy ?df u \<noteq> []"
      using k by (simp add: filas_nuevas_sheets)
    ultimately show ?thesis using SheetsPy by (simp add: hd_conv_nth)
  next
    case ScrapingPy
    have "filas_esperadas ?df u ! 0 = fila_esperada (columns ?df) (u + 1 + 0) (snd (rows ?df ! 0))"
      using k by (simp add: filas_esperadas_def nth_enumerate_eq case_prod_beta)
    moreover have "length (filas_esperadas ?df u) = length (rows ?df)"
      by (simp add: filas_esperadas_def)
    then have "filas_esperadas ?df u \<noteq> []"
      using k by auto
    ultimately show ?thesis
      using ScrapingPy by (simp add: filas_nuevas_scraping_dedup hd_conv_nth fila_esperada_def)
  qed
qed

text \<open>
  C2. \<open>_ultimo_numero\<close> returns 0 when no alias of the sequence column matches a header.
  Otherwise it returns the maximum, over the cells under the header, of the number the
  specification's scan reads from a cell (digit characters kept, parsed, kept when
  positive), and 0 when no cell gives one. A sign is a non-digit character, so it is
  stripped before the parse. The first row a run emits carries the number returned plus
  one: 1 when 0 was returned.
\<close>

theorem ultimo_numero_is_max:
  "fst (ultimo_numero v hoja headers st) =
     (case find_header_idx v headers numero_aliases of
        None \<Rightarrow> 0
      | Some idx \<Rightarrow>
          Max (insert 0 (set (List.map_filter spec_cell_number
                                (drop 1 (grid_col (grid_of st hoja) (idx + 1)))))))
   \<and> (rows (deduplicar (DataFrame resultados) ids) \<noteq> [] \<longrightarrow>
        hd (hd (filas_nuevas v (deduplicar (DataFrame resultados) ids)
                  (fst (ultimo_numero v hoja headers st))))
          = Num (int (fst (ultimo_numero v hoja headers st)) + 1))"
  by (simp add: ultimo_numero_def col_values_def max_or_zero_Max collect_nums_map_filter
        primer_numero split: option.splits)

theorem ultimo_numero_is_max_witness:
  "find_header_idx SheetsPy [''Id'', ''Nro'', ''Notas''] numero_aliases = Some 1
   \<and> fst (ultimo_numero SheetsPy ''August'' [''Id'', ''Nro'', ''Notas''] hoja_editada) = 7
   \<and> find_header_idx ScrapingPy [''Id'', ''Notas''] numero_aliases = None
   \<and> fst (ultimo_numero ScrapingPy ''August'' [''Id'', ''Notas''] hoja_editada) = 0
   \<and> hd (hd (filas_nuevas ScrapingPy (deduplicar (DataFrame lote_parcial) {})
                (fst (ultimo_numero ScrapingPy ''August'' [''Id'', ''Notas''] hoja_editada))))
        = Num 1"
proof -
  have a: "find_header_idx SheetsPy [''Id'', ''Nro'', ''Notas''] numero_aliases = Some 1"
    by code_simp
  have b: "find_header_idx ScrapingPy [''Id'', ''Notas''] numero_aliases = None"
    by code_simp
  have c: "List.map_filter spec_cell_number
             (drop 1 (grid_col (grid_of hoja_editada ''August'') (1 + 1))) = [3, 1, 7]"
    by code_simp
  have d: "rows (deduplicar (DataFrame lote_parcial) {}) \<noteq> []"
    by (simp add: rows_deduplicar rows_DataFrame lote_parcial_def isin_def split: pyval.splits)
  note ta = ultimo_numero_is_max
              [of SheetsPy "''August''" "[''Id'', ''Nro'', ''Notas'']" hoja_editada lote_parcial "{}"]
  note tb = ultimo_numero_is_max
              [of ScrapingPy "''August''" "[''Id'', ''Notas'']" hoja_editada lote_parcial "{}"]
  have ua: "fst (ultimo_numero SheetsPy ''August'' [''Id'', ''Nro'', ''Notas''] hoja_editada) = 7"
    using ta [THEN conjunct1] unfolding a c option.case by simp
  have ub: "fst (ultimo_numero ScrapingPy ''August'' [''Id'', ''Notas''] hoja_editada) = 0"
    using tb [THEN conjunct1] unfolding b option.case by simp
  have "hd (hd (filas_nuevas ScrapingPy (deduplicar (DataFrame lote_parcial) {})
                (fst (ultimo_numero ScrapingPy ''August'' [''Id'', ''Notas''] hoja_editada))))
        = Num (int (fst (ultimo_numero ScrapingPy ''August'' [''Id'', ''Notas''] hoja_editada)) + 1)"
    using tb [THEN conjunct2] d by simp
  then show ?thesis using a b ua ub by simp
qed

text \<open>
  C3. When a run ends with rows saved, the \<open>k\<close> rows it appended are the records that
  survived the deduplication, in the order in which they came (their labels increase and
  each row is the record at its label), and the sequence numbers of the rows are
  \<open>ultimo + 1\<close>, \<open>ultimo + 2\<close>, ..., \<open>ultimo + k\<close> in that order, \<open>ultimo\<close> being the number
  recovered from the tab. The rows stored under the tab are these, after the rows that
  were there.
\<close>

theorem sequence_numbers_contiguous:
  assumes "fst (guardar_en_hoja v resultados fecha st) = Inr (Saved k mes)"
  shows "(let ultimo = fst (fst (leer_hoja v mes st));
              st1 = snd (leer_hoja v mes st);
              df = deduplicar (DataFrame resultados) (snd (fst (leer_hoja v mes st)));
              st' = snd (guardar_en_hoja v resultados fecha st)
          in k = length (rows df) \<and> 0 < k
           \<and> sorted_wrt (<) (map fst (rows df))
           \<and> map snd (rows df) = map (\<lambda>l. record_row (resultados ! l)) (map fst (rows df))
           \<and> filas_nuevas v df ultimo = filas_esperadas df ultimo
           \<and> map hd (filas_nuevas v df ultimo) = map (\<lambda>i. Num (int (ultimo + 1 + i))) [0..<k]
           \<and> take (length (grid_of st1 mes)) (grid_of st' mes) = grid_of st1 mes
           \<and> render_rows (filas_nuevas v df ultimo)
               = Some (drop (length (grid_of st1 mes)) (grid_of st' mes)))"
proof -
  let ?u = "fst (fst (leer_hoja v mes st))"
  let ?df = "deduplicar (DataFrame resultados) (snd (fst (leer_hoja v mes st)))"
  note s = guardar_saved [OF assms]
  from s(3) obtain g where g: "render_rows (filas_nuevas v ?df ?u) = Some g"
    "grid_of (snd (guardar_en_hoja v resultados fecha st)) mes = grid_of (snd (leer_hoja v mes st)) mes @ g"
    by blast
  have f: "filas_nuevas v ?df ?u = filas_esperadas ?df ?u"
    using g(1) by (intro filas_nuevas_ok) simp
  have k: "k = length (rows ?df)" using s(4) by (simp add: f filas_esperadas_def)
  have k0: "0 < k" using s(2) k by (simp add: df_empty_def)
  have r: "map snd (rows ?df) = map (\<lambda>l. record_row (resultados ! l)) (map fst (rows ?df))"
    using rows_deduplicar_subset [of _ _ resultados] by (auto simp: comp_def)
  have h: "map hd (filas_esperadas ?df ?u) = map (\<lambda>i. Num (int (?u + 1 + i))) [0..<k]"
    by (rule nth_equalityI)
       (simp_all add: filas_esperadas_def fila_esperada_def k nth_enumerate_eq case_prod_beta)
  show ?thesis
    unfolding Let_def using k k0 labels_deduplicar r f h g by simp
qed


theorem sequence_numbers_contiguous_witness:
  "fst (guardar_en_hoja SheetsPy
          [[(''id'', Str ''A2''), (''titulo'', Str ''Y'')], [(''id'', Str ''A3''), (''titulo'', Str ''Z'')], [(''id'', Str ''A1''), (''titulo'', Str ''X'')]]
          ''2024-08-15'' hoja_agosto) = Inr (Saved 2 ''August'')
   \<and> map hd (filas_nuevas SheetsPy
         (deduplicar (DataFrame
            [[(''id'', Str ''A2''), (''titulo'', Str ''Y'')], [(''id'', Str ''A3''), (''titulo'', Str ''Z'')], [(''id'', Str ''A1''), (''titulo'', Str ''X'')]])
            (snd (fst (leer_hoja SheetsPy ''August'' hoja_agosto))))
         (fst (fst (leer_hoja SheetsPy ''August'' hoja_agosto)))) = [Num 6, Num 7]
   \<and> fst (guardar_en_hoja ScrapingPy
          [[(''id'', Str ''A1''), (''titulo'', Str ''X'')], [(''id'', Str ''A2''), (''titulo'', Str ''Y'')], [(''id'', Str ''A3''), (''titulo'', Str ''Z'')]]
          ''2024-08-15'' hoja_agosto) = Inr (Saved 2 ''August'')
   \<and> map hd (filas_nuevas ScrapingPy
         (deduplicar (DataFrame
            [[(''id'', Str ''A1''), (''titulo'', Str ''X'')], [(''id'', Str ''A2''), (''titulo'', Str ''Y'')], [(''id'', Str ''A3''), (''titulo'', Str ''Z'')]])
            (snd (fst (leer_hoja ScrapingPy ''August'' hoja_agosto))))
         (fst (fst (leer_hoja ScrapingPy ''August'' hoja_agosto)))) = [Num 6, Num 7]"
proof -
  let ?a = "[[(''id'', Str ''A2''), (''titulo'', Str ''Y'')], [(''id'', Str ''A3''), (''titulo'', Str ''Z'')], [(''id'', Str ''A1''), (''titulo'', Str ''X'')]]"
  let ?b = "[[(''id'', Str ''A1''), (''titulo'', Str ''X'')], [(''id'', Str ''A2''), (''titulo'', Str ''Y'')], [(''id'', Str ''A3''), (''titulo'', Str ''Z'')]]"
  have ha: "fst (guardar_en_hoja SheetsPy ?a ''2024-08-15'' hoja_agosto) = Inr (Saved 2 ''August'')"
    by code_simp
  have hb: "fst (guardar_en_hoja ScrapingPy ?b ''2024-08-15'' hoja_agosto) = Inr (Saved 2 ''August'')"
    by code_simp
  have ua: "fst (fst (leer_hoja SheetsPy ''August'' hoja_agosto)) = 5" by code_simp
  have ub: "fst (fst (leer_hoja ScrapingPy ''August'' hoja_agosto)) = 5" by code_simp
  have n: "map (\<lambda>i. Num (int (5 + 1 + i))) [0..<2] = [Num 6, Num 7]"
    by code_simp
  note ta = sequence_numbers_contiguous [OF ha, unfolded Let_def ua n]
  note tb = sequence_numbers_contiguous [OF hb, unfolded Let_def ub n]
  note fa = ta [THEN conjunct2, THEN conjunct2, THEN conjunct2, THEN conjunct2, THEN conjunct2,
                THEN conjunct1]
  note fb = tb [THEN conjunct2, THEN conjunct2, THEN conjunct2, THEN conjunct2, THEN conjunct2,
                THEN conjunct1]
  show ?thesis
    unfolding ua ub by (intro conjI ha hb fa fb)
qed

section \<open>Where the two modules part\<close>

text \<open>
  C6. Every emitted row should carry the fields of the surviving record it was built
  from, each canonical column read from its producer field and the empty string where no
  incoming record has the field. scraping.py does so for every batch
  (\<open>filas_nuevas_scraping_dedup\<close>). sheets.py fills a new frame, whose labels start at 0,
  from Series that keep the labels of the filtered frame: with the first record of
  \<open>lote_parcial\<close> already stored, the survivor has label 1, the one emitted row has label
  0 and receives NaN for the identifier and the title, and the append is refused.
\<close>

theorem sheets_py_misaligns_rows:
  "filas_esperadas (deduplicar (DataFrame lote_parcial) {''A1''}) 5
     = [[Num 6, Str [], Str [], Str ''A2'', Str ''Y'', Str [], Str [], Str [], Str [], Str [],
         Str [], Str [], Str []]]
   \<and> filas_nuevas ScrapingPy (deduplicar (DataFrame lote_parcial) {''A1''}) 5
     = [[Num 6, Str [], Str [], Str ''A2'', Str ''Y'', Str [], Str [], Str [], Str [], Str [],
         Str [], Str [], Str []]]
   \<and> filas_nuevas SheetsPy (deduplicar (DataFrame lote_parcial) {''A1''}) 5
     = [[Num 6, Str [], Str [], NaN, NaN, Str [], Str [], Str [], Str [], Str [],
         Str [], Str [], Str []]]
   \<and> fst (guardar_en_hoja ScrapingPy lote_parcial ''2024-08-15'' hoja_agosto)
     = Inr (Saved 1 ''August'')
   \<and> fst (guardar_en_hoja SheetsPy lote_parcial ''2024-08-15'' hoja_agosto)
     = Inl InvalidJSONError"
  by code_simp

text \<open>
  C10. Records of one batch that share an identifier not yet stored all pass the filter,
  and should all be appended, each with its own sequence number. With \<open>lote_repetido\<close>
  both records with identifier B survive in either module. scraping.py appends them as
  rows 6 and 7. sheets.py emits a row 6 without identifier and a row 7 for the first B,
  loses the second B, and the append is refused: nothing is stored.
\<close>

theorem sheets_py_loses_repeated_identifiers:
  "map fst (rows (deduplicar (DataFrame lote_repetido)
                    (snd (fst (leer_hoja SheetsPy ''August'' hoja_agosto))))) = [1, 2]
   \<and> map (\<lambda>f. (f ! 0, f ! 3))
        (filas_nuevas SheetsPy (deduplicar (DataFrame lote_repetido)
           (snd (fst (leer_hoja SheetsPy ''August'' hoja_agosto)))) 5)
       = [(Num 6, NaN), (Num 7, Str ''B'')]
   \<and> fst (guardar_en_hoja SheetsPy lote_repetido ''2024-08-15'' hoja_agosto)
       = Inl InvalidJSONError
   \<and> drop 1 (grid_of (snd (guardar_en_hoja SheetsPy lote_repetido ''2024-08-15'' hoja_agosto))
               ''August'')
       = [[''5'', [], [], ''A1'']]
   \<and> fst (guardar_en_hoja ScrapingPy lote_repetido ''2024-08-15'' hoja_agosto)
       = Inr (Saved 2 ''August'')
   \<and> map (\<lambda>f. (f ! 0, f ! 3))
        (drop 2 (grid_of (snd (guardar_en_hoja ScrapingPy lote_repetido ''2024-08-15'' hoja_agosto))
                   ''August''))
       = [(''6'', ''B''), (''7'', ''B'')]"
  by code_simp

text \<open>
  C1, as stated, fails. Records without an identifier field are not deduplicated: the
  second run of the same batch on the same date appends the row again.
\<close>

theorem second_run_appends_again:
  "fst (guardar_en_hoja ScrapingPy lote_sin_id ''2024-08-15'' sin_hojas) = Inr (Saved 1 ''August'')
   \<and> fst (guardar_en_hoja ScrapingPy lote_sin_id ''2024-08-15''
            (snd (guardar_en_hoja ScrapingPy lote_sin_id ''2024-08-15'' sin_hojas)))
       = Inr (Saved 1 ''August'')
   \<and> length (grid_of (snd (guardar_en_hoja ScrapingPy lote_sin_id ''2024-08-15'' sin_hojas))
               ''August'') = 2
   \<and> length (grid_of (snd (guardar_en_hoja ScrapingPy lote_sin_id ''2024-08-15''
            (snd (guardar_en_hoja ScrapingPy lote_sin_id ''2024-08-15'' sin_hojas))))
               ''August'') = 3"
  by code_simp

section \<open>Running the same batch again\<close>

lemma strip_trailing_decomp: "\<exists>es. xs = strip_trailing xs @ es \<and> (\<forall>e\<in>set es. e = [])"
proof -
  let ?P = "\<lambda>x::string. x = []"
  have "rev xs = takeWhile ?P (rev xs) @ dropWhile ?P (rev xs)" by simp
  then have "xs = rev (dropWhile ?P (rev xs)) @ rev (takeWhile ?P (rev xs))"
    by (metis rev_append rev_rev_ident)
  moreover have "\<forall>e\<in>set (rev (takeWhile ?P (rev xs))). e = []"
    by (auto dest: set_takeWhileD)
  ultimately show ?thesis unfolding strip_trailing_def by blast
qed

lemma strip_trailing_id: "xs \<noteq> [] \<Longrightarrow> last xs \<noteq> [] \<Longrightarrow> strip_trailing xs = xs"
  by (cases xs rule: rev_cases) (simp_all add: strip_trailing_def)

lemma strip_trailing_append_empties:
  "\<forall>e\<in>set es. e = [] \<Longrightarrow> strip_trailing (xs @ es) = strip_trailing xs"
proof -
  assume "\<forall>e\<in>set es. e = []"
  then have "dropWhile (\<lambda>x. x = []) (rev es @ rev xs) = dropWhile (\<lambda>x. x = []) (rev xs)"
    by (intro dropWhile_append2) simp
  then show ?thesis by (simp add: strip_trailing_def)
qed

lemma strip_trailing_Nil_iff: "strip_trailing xs = [] \<longleftrightarrow> (\<forall>e\<in>set xs. e = [])"
  by (auto simp: strip_trailing_def dropWhile_eq_Nil_conv)

lemma grid_row_1:
  "grid_row g 1 = strip_trailing (first_row g)"
  "grid_row g (Suc 0) = strip_trailing (first_row g)"
  by (simp_all add: grid_row_def first_row_def)

lemma first_row_write_A1: "first_row (write_A1 g fila) = fila @ drop (length fila) (first_row g)"
  by (cases g) (simp_all add: first_row_def write_A1_def)

lemma write_A1_not_Nil [simp]: "write_A1 g fila \<noteq> []"
  by (cases g) (simp_all add: write_A1_def)

lemma columnas_not_empty: "\<forall>c\<in>set columnas_ordenadas. c \<noteq> []"
  by (simp add: columnas_ordenadas_def col_numero_def)

lemma columnas_not_Nil: "columnas_ordenadas \<noteq> []"
  by (simp add: columnas_ordenadas_def)

lemma header_written:
  assumes "fila \<noteq> []" "last fila \<noteq> []" "\<forall>e\<in>set (drop (length fila) (first_row g)). e = []"
  shows "grid_row (write_A1 g fila) 1 = fila"
  using assms
  by (simp add: grid_row_1 first_row_write_A1 strip_trailing_append_empties strip_trailing_id)

lemma asegurar_stable:
  fixes st mes
  defines "a \<equiv> asegurar_encabezados mes columnas_ordenadas st"
  shows "grid_row (grid_of (snd a) mes) 1 = fst a"
    and "set columnas_ordenadas \<subseteq> set (fst a)"
    and "grid_of (snd a) mes \<noteq> []"
proof -
  let ?g = "grid_of st mes"
  let ?h = "grid_row ?g 1"
  let ?f = "filter (\<lambda>h. h \<notin> set ?h) columnas_ordenadas"
  obtain es where es: "first_row ?g = ?h @ es" "\<forall>e\<in>set es. e = []"
    using strip_trailing_decomp [of "first_row ?g"] by (auto simp: grid_row_1)
  have "grid_row (grid_of (snd a) mes) 1 = fst a \<and> set columnas_ordenadas \<subseteq> set (fst a)
        \<and> grid_of (snd a) mes \<noteq> []"
  proof (cases "?h = []")
    case True
    then have e: "\<forall>e\<in>set (first_row ?g). e = []" using es by simp
    have "\<forall>e\<in>set (drop (length columnas_ordenadas) (first_row ?g)). e = []"
      using e by (meson in_set_dropD)
    then have "grid_row (write_A1 ?g columnas_ordenadas) 1 = columnas_ordenadas"
      using columnas_not_empty columnas_not_Nil by (intro header_written) simp_all
    then show ?thesis
      using True by (simp add: a_def asegurar_encabezados_def row_values_def)
  next
    case False
    show ?thesis
    proof (cases "?f = []")
      case True
      have "?g \<noteq> []" using False by (auto simp: grid_row_def strip_trailing_def)
      moreover have "set columnas_ordenadas \<subseteq> set ?h"
        using True by (auto simp: filter_empty_conv)
      ultimately show ?thesis
        using True False by (simp add: a_def asegurar_encabezados_def row_values_def Let_def)
    next
      case f: False
      have l: "last (?h @ ?f) \<noteq> []"
        using f columnas_not_empty
        by (metis (mono_tags, lifting) last_appendR last_in_set filter_is_subset subsetD)
      have "drop (length (?h @ ?f)) (first_row ?g) = drop (length ?f) es"
        by (simp add: es(1))
      then have "\<forall>e\<in>set (drop (length (?h @ ?f)) (first_row ?g)). e = []"
        using es(2) by (metis in_set_dropD)
      then have "grid_row (write_A1 ?g (?h @ ?f)) 1 = ?h @ ?f"
        using l f by (intro header_written) simp_all
      moreover have "set columnas_ordenadas \<subseteq> set (?h @ ?f)" by auto
      ultimately show ?thesis
        using False f by (simp add: a_def asegurar_encabezados_def row_values_def Let_def)
    qed
  qed
  then show "grid_row (grid_of (snd a) mes) 1 = fst a"
    and "set columnas_ordenadas \<subseteq> set (fst a)"
    and "grid_of (snd a) mes \<noteq> []"
    by simp_all
qed

lemma asegurar_reconciled:
  assumes "grid_row (grid_of st mes) 1 = h" "set columnas_ordenadas \<subseteq> set h"
  shows "asegurar_encabezados mes columnas_ordenadas st = (h, called (RowValues mes 1) st)"
proof -
  have "h \<noteq> []" using assms(2) columnas_not_Nil by auto
  moreover have "filter (\<lambda>c. c \<notin> set h) columnas_ordenadas = []"
    using assms(2) by (auto simp: filter_empty_conv)
  ultimately show ?thesis
    using assms(1) by (simp add: asegurar_encabezados_def row_values_def Let_def)
qed


lemma strip_Nil [simp]: "strip [] = []"
  by (simp add: strip_def)

lemma ids_en_append: "ids_en (a @ b) i = ids_en a i \<union> ids_en b i"
  by (auto simp: ids_en_def)

lemma ids_en_Nil [simp]: "ids_en [] i = {}"
  by (simp add: ids_en_def)

lemma drop_strip_trailing:
  "{c \<in> set (drop n (strip_trailing xs)). strip c \<noteq> []} = {c \<in> set (drop n xs). strip c \<noteq> []}"
proof -
  obtain es where es: "xs = strip_trailing xs @ es" "\<forall>e\<in>set es. e = []"
    using strip_trailing_decomp by blast
  have "set (drop n xs) = set (drop n (strip_trailing xs)) \<union> set (drop (n - length (strip_trailing xs)) es)"
    by (subst es(1)) simp
  moreover have "\<forall>e\<in>set (drop (n - length (strip_trailing xs)) es). strip e = []"
  proof
    fix e assume "e \<in> set (drop (n - length (strip_trailing xs)) es)"
    then have "e \<in> set es" by (rule in_set_dropD)
    then have "e = []" using es(2) by blast
    then show "strip e = []" by simp
  qed
  ultimately show ?thesis by auto
qed

lemma ids_existentes_grid:
  "fst (ids_existentes v hoja H st) =
     (case find_header_idx v H id_aliases of
        None \<Rightarrow> {}
      | Some i \<Rightarrow> ids_en (drop 1 (grid_of st hoja)) i)"
proof (cases "find_header_idx v H id_aliases")
  case None
  then show ?thesis by (simp add: ids_existentes_def)
next
  case (Some i)
  let ?xs = "map (\<lambda>r. cell r i) (grid_of st hoja)"
  have "fst (ids_existentes v hoja H st)
          = strip ` {c \<in> set (drop 1 (strip_trailing ?xs)). strip c \<noteq> []}"
    using Some by (auto simp: ids_existentes_def col_values_def grid_col_def)
  also have "\<dots> = strip ` {c \<in> set (drop 1 ?xs). strip c \<noteq> []}"
    by (simp only: drop_strip_trailing)
  also have "\<dots> = ids_en (drop 1 (grid_of st hoja)) i"
    by (simp add: ids_en_def drop_map)
  finally show ?thesis using Some by simp
qed

lemma leer_hoja_parts:
  fixes v mes st
  defines "a \<equiv> asegurar_encabezados mes columnas_ordenadas (abrir_hoja mes (conectar_google_sheets st))"
  shows "sheets (snd (leer_hoja v mes st)) = sheets (snd a)"
    and "snd (fst (leer_hoja v mes st)) =
           (case find_header_idx v (fst a) id_aliases of
              None \<Rightarrow> {}
            | Some i \<Rightarrow> ids_en (drop 1 (grid_of (snd a) mes)) i)"
proof -
  let ?u = "ultimo_numero v mes (fst a) (snd a)"
  let ?i = "ids_existentes v mes (fst a) (snd ?u)"
  have l: "leer_hoja v mes st = ((fst ?u, fst ?i), snd ?i)"
    by (simp add: leer_hoja_def a_def split: prod.splits)
  show "sheets (snd (leer_hoja v mes st)) = sheets (snd a)"
    by (simp add: l ids_existentes_frame ultimo_numero_frame)
  have "grid_of (snd ?u) mes = grid_of (snd a) mes"
    by (rule grid_of_cong) (simp add: ultimo_numero_frame)
  then have "fst ?i = (case find_header_idx v (fst a) id_aliases of
              None \<Rightarrow> {}
            | Some i \<Rightarrow> ids_en (drop 1 (grid_of (snd a) mes)) i)"
    by (simp only: ids_existentes_grid)
  then show "snd (fst (leer_hoja v mes st)) =
           (case find_header_idx v (fst a) id_aliases of
              None \<Rightarrow> {}
            | Some i \<Rightarrow> ids_en (drop 1 (grid_of (snd a) mes)) i)"
    by (simp add: l)
qed

lemma those_map_nth:
  "those (map f xs) = Some ys \<Longrightarrow> length ys = length xs \<and> (\<forall>i<length xs. f (xs ! i) = Some (ys ! i))"
proof (induction xs arbitrary: ys)
  case Nil
  then show ?case by simp
next
  case (Cons x xs)
  then obtain y zs where y: "f x = Some y" "those (map f xs) = Some zs" "ys = y # zs"
    by (auto split: option.splits)
  show ?case using Cons.IH [OF y(2)] y by (auto simp: nth_Cons split: nat.splits)
qed

lemma campos_id: "campos ! Suc (Suc 0) = (''ID'', ''id'')" "length campos = 12"
  by (simp_all add: campos_def)

lemma appended_ids:
  assumes gr: "render_rows (filas_esperadas df u) = Some gr"
    and r: "(l, r) \<in> set (rows df)" and c: "''id'' \<in> set (columns df)" and s: "r ''id'' = Str s"
  shows "s \<in> (\<lambda>f. cell f 3) ` set gr"
proof -
  obtain i where i: "i < length (rows df)" "rows df ! i = (l, r)"
    using r by (auto simp: in_set_conv_nth)
  let ?fila = "filas_esperadas df u ! i"
  have len: "length (filas_esperadas df u) = length (rows df)"
    by (simp add: filas_esperadas_def)
  have f: "?fila = fila_esperada (columns df) (u + 1 + i) r"
    using i by (simp add: filas_esperadas_def nth_enumerate_eq)
  have f3: "?fila ! 3 = Str s" "length ?fila = 13"
    using c s campos_id by (simp_all add: f fila_esperada_def numeral_3_eq_3)
  from gr have g: "length gr = length (filas_esperadas df u)"
    "those (map render ?fila) = Some (gr ! i)"
    using those_map_nth [of "\<lambda>f. those (map render f)" "filas_esperadas df u" gr] i len
    by (simp_all add: render_rows_def)
  have "length (gr ! i) = 13" "render (?fila ! 3) = Some (gr ! i ! 3)"
    using those_map_nth [OF g(2)] f3(2) by simp_all
  then have "cell (gr ! i) 3 = s" using f3(1) by (simp add: cell_def)
  moreover have "gr ! i \<in> set gr" using g(1) len i(1) by simp
  ultimately show ?thesis by blast
qed

lemma first_row_append: "g \<noteq> [] \<Longrightarrow> first_row (g @ g') = first_row g"
  by (cases g) (simp_all add: first_row_def)

lemma abrir_hoja_existing:
  "sheets st mes = Some g \<Longrightarrow> sheets (abrir_hoja mes (conectar_google_sheets st)) = sheets st"
  by (simp add: abrir_hoja_def conectar_google_sheets_def)

lemma abrir_hoja_exists: "sheets (abrir_hoja mes st) mes \<noteq> None"
  by (simp add: abrir_hoja_def split: option.splits)

lemma asegurar_exists:
  "sheets st mes \<noteq> None \<Longrightarrow> sheets (snd (asegurar_encabezados mes e st)) mes \<noteq> None"
  by (simp add: asegurar_encabezados_def row_values_def Let_def)

lemma all_matched_empty:
  assumes "\<forall>r\<in>set rs. \<exists>s. map_of r ''id'' = Some (Str s) \<and> s \<in> ids"
  shows "rows (deduplicar (DataFrame rs) ids) = []"
proof -
  have "isin ids (record_row (rs ! i) ''id'')" if "i < length rs" for i
  proof -
    have "rs ! i \<in> set rs" using that by simp
    then obtain s where "map_of (rs ! i) ''id'' = Some (Str s)" "s \<in> ids"
      using assms by blast
    then show ?thesis by (simp add: isin_def record_row_def)
  qed
  then have "filter (\<lambda>(l, r). \<not> isin ids (r ''id'')) (rows (DataFrame rs)) = []"
    by (auto simp: rows_DataFrame filter_empty_conv)
  moreover have "''id'' \<in> set (columns (DataFrame rs))" if ne: "rs \<noteq> []"
  proof -
    from ne obtain r where r: "r \<in> set rs" by (cases rs) auto
    then obtain s where "map_of r ''id'' = Some (Str s)" using assms by blast
    then have "''id'' \<in> fst ` set r" by (metis map_of_eq_None_iff option.distinct(1))
    then show ?thesis using r by (auto simp: columns_DataFrame)
  qed
  ultimately show ?thesis
    by (cases "rs = []") (simp_all add: rows_deduplicar rows_DataFrame)
qed

lemma guardar_nothing_new:
  assumes "rs \<noteq> []" "mes_de fecha = Some mes"
    and "df_empty (deduplicar (DataFrame rs) (snd (fst (leer_hoja v mes st))))"
  shows "guardar_en_hoja v rs fecha st = (Inr NothingNew, snd (leer_hoja v mes st))"
proof -
  obtain u ids st1 where l: "leer_hoja v mes st = ((u, ids), st1)"
    by (metis prod.exhaust)
  show ?thesis using assms by (simp add: guardar_en_hoja_def l)
qed

lemma guardar_append:
  assumes "rs \<noteq> []" "mes_de fecha = Some mes"
    and "\<not> df_empty (deduplicar (DataFrame rs) (snd (fst (leer_hoja v mes st))))"
    and "append_rows mes (filas_nuevas v (deduplicar (DataFrame rs) (snd (fst (leer_hoja v mes st))))
                           (fst (fst (leer_hoja v mes st)))) (snd (leer_hoja v mes st)) = (res, st2)"
  shows "guardar_en_hoja v rs fecha st =
           (case res of Inl e \<Rightarrow> (Inl e, st2)
            | Inr x \<Rightarrow>
                (Inr (Saved (length (filas_nuevas v (deduplicar (DataFrame rs) (snd (fst (leer_hoja v mes st))))
                           (fst (fst (leer_hoja v mes st))))) mes),
                 formato v mes (length (filas_nuevas v (deduplicar (DataFrame rs) (snd (fst (leer_hoja v mes st))))
                           (fst (fst (leer_hoja v mes st))))) st2))"
proof -
  obtain u ids st1 where l: "leer_hoja v mes st = ((u, ids), st1)"
    by (metis prod.exhaust)
  show ?thesis using assms by (simp add: guardar_en_hoja_def l Let_def split: sum.splits)
qed

text \<open>
  C1, amended. Take a date that parses and a non-empty batch in which every record
  carries an identifier that is a non-empty string without blanks at either end. If the
  first run does not fail, and the header row it leaves has its identifier column, as the
  alias lookup finds it, in fourth place (where the rows carry the identifier), then the
  second run of the same batch on the same date finds every identifier in the recovered
  set, drops every record, ends with the message that there is nothing new, and leaves
  every tab as the first run left it.
\<close>

theorem second_run_is_noop:
  assumes ne: "resultados \<noteq> []"
    and mes: "mes_de fecha = Some mes"
    and ok: "fst (guardar_en_hoja v resultados fecha st) = Inr out1"
    and ids: "\<forall>r\<in>set resultados. \<exists>s. map_of r ''id'' = Some (Str s) \<and> s \<noteq> [] \<and> strip s = s"
    and col: "find_header_idx v
                (grid_row (grid_of (snd (guardar_en_hoja v resultados fecha st)) mes) 1)
                id_aliases = Some 3"
  shows "fst (guardar_en_hoja v resultados fecha (snd (guardar_en_hoja v resultados fecha st)))
           = Inr NothingNew
       \<and> sheets (snd (guardar_en_hoja v resultados fecha (snd (guardar_en_hoja v resultados fecha st))))
           = sheets (snd (guardar_en_hoja v resultados fecha st))"
proof -
  let ?st1 = "snd (guardar_en_hoja v resultados fecha st)"
  let ?a = "asegurar_encabezados mes columnas_ordenadas (abrir_hoja mes (conectar_google_sheets st))"
  let ?H = "fst ?a" and ?gb = "grid_of (snd ?a) mes"
  let ?u = "fst (fst (leer_hoja v mes st))" and ?ids1 = "snd (fst (leer_hoja v mes st))"
  let ?str = "snd (leer_hoja v mes st)"
  let ?df1 = "deduplicar (DataFrame resultados) ?ids1"
  have l: "leer_hoja v mes st = ((?u, ?ids1), ?str)" by simp
  have shr: "sheets ?str = sheets (snd ?a)" by (rule leer_hoja_parts(1))
  have gb: "?gb \<noteq> []" "grid_row ?gb 1 = ?H" "set columnas_ordenadas \<subseteq> set ?H"
    using asegurar_stable [of mes "abrir_hoja mes (conectar_google_sheets st)"] by simp_all
  have ex: "sheets (snd ?a) mes = Some ?gb"
    using asegurar_exists [OF abrir_hoja_exists, of mes columnas_ordenadas "conectar_google_sheets st"]
    by (auto simp: grid_of_def)
  have idcol: "''id'' \<in> set (columns (DataFrame resultados))"
  proof -
    obtain r where r: "r \<in> set resultados" using ne by (cases resultados) auto
    then obtain s where "map_of r ''id'' = Some (Str s)" using ids by blast
    then have "''id'' \<in> fst ` set r" by (metis map_of_eq_None_iff option.distinct(1))
    then show ?thesis using r by (auto simp: columns_DataFrame)
  qed
  \<comment> \<open>the tab after the first run: the reconciled grid, then the rows appended\<close>
  have "\<exists>gr. sheets ?st1 = (sheets (snd ?a))(mes \<mapsto> ?gb @ gr)
            \<and> (\<forall>l r s. (l, r) \<in> set (rows ?df1) \<longrightarrow> r ''id'' = Str s \<longrightarrow> s \<in> (\<lambda>f. cell f 3) ` set gr)"
  proof (cases "df_empty ?df1")
    case True
    then have "guardar_en_hoja v resultados fecha st = (Inr NothingNew, ?str)"
      using ne mes by (intro guardar_nothing_new)
    then have "sheets ?st1 = sheets (snd ?a)" by (simp add: shr)
    moreover have "rows ?df1 = []" using True idcol by (auto simp: df_empty_def)
    ultimately show ?thesis using ex by (intro exI [of _ "[]"]) (simp add: fun_upd_idem)
  next
    case False
    obtain res st2 where a: "append_rows mes (filas_nuevas v ?df1 ?u) ?str = (res, st2)"
      by (metis prod.exhaust)
    have g: "guardar_en_hoja v resultados fecha st =
               (case res of Inl e \<Rightarrow> (Inl e, st2)
                | Inr x \<Rightarrow> (Inr (Saved (length (filas_nuevas v ?df1 ?u)) mes),
                             formato v mes (length (filas_nuevas v ?df1 ?u)) st2))"
      using ne mes False a by (rule guardar_append)
    from g ok obtain x where r: "res = Inr x" by (cases res) auto
    from a r obtain gr where gr: "render_rows (filas_nuevas v ?df1 ?u) = Some gr"
      and st2: "sheets st2 = (sheets ?str)(mes \<mapsto> grid_of ?str mes @ gr)"
      by (auto simp: append_rows_def split: option.splits)
    have f: "filas_nuevas v ?df1 ?u = filas_esperadas ?df1 ?u"
      using gr by (intro filas_nuevas_ok) simp
    have "grid_of ?str mes = ?gb" by (rule grid_of_cong [OF shr])
    then have "sheets ?st1 = (sheets (snd ?a))(mes \<mapsto> ?gb @ gr)"
      by (simp add: g r st2 shr)
    moreover have "s \<in> (\<lambda>f. cell f 3) ` set gr" if "(l, r) \<in> set (rows ?df1)" "r ''id'' = Str s" for l r s
      using gr that idcol unfolding f by (intro appended_ids [of ?df1 ?u gr l r]) simp_all
    ultimately show ?thesis by blast
  qed
  then obtain gr where s1: "sheets ?st1 = (sheets (snd ?a))(mes \<mapsto> ?gb @ gr)"
    and app: "\<And>l r s. (l, r) \<in> set (rows ?df1) \<Longrightarrow> r ''id'' = Str s \<Longrightarrow> s \<in> (\<lambda>f. cell f 3) ` set gr"
    by blast
  have g1: "grid_of ?st1 mes = ?gb @ gr" by (simp add: s1 grid_of_def)
  have h1: "grid_row (grid_of ?st1 mes) 1 = ?H"
    using gb by (simp add: g1 grid_row_1 first_row_append)
  have c: "find_header_idx v ?H id_aliases = Some 3" using col h1 by simp
  have ids1: "?ids1 = ids_en (drop 1 ?gb) 3"
    using leer_hoja_parts(2) [of v mes st] c by simp
  \<comment> \<open>the second run\<close>
  let ?a2 = "asegurar_encabezados mes columnas_ordenadas (abrir_hoja mes (conectar_google_sheets ?st1))"
  let ?ids2 = "snd (fst (leer_hoja v mes ?st1))"
  let ?str2 = "snd (leer_hoja v mes ?st1)"
  have e1: "sheets ?st1 mes = Some (?gb @ gr)" by (simp add: s1)
  have ab: "sheets (abrir_hoja mes (conectar_google_sheets ?st1)) = sheets ?st1"
    by (rule abrir_hoja_existing [OF e1])
  have "grid_row (grid_of (abrir_hoja mes (conectar_google_sheets ?st1)) mes) 1 = ?H"
    using h1 grid_of_cong [OF ab] by simp
  then have a2: "?a2 = (?H, called (RowValues mes 1) (abrir_hoja mes (conectar_google_sheets ?st1)))"
    using gb(3) by (rule asegurar_reconciled)
  have sh2: "sheets ?str2 = sheets ?st1"
    using leer_hoja_parts(1) [of v mes ?st1] by (simp add: a2 ab)
  have "grid_of (snd ?a2) mes = ?gb @ gr"
    by (simp add: a2 grid_of_cong [OF ab] g1)
  moreover have "drop 1 (?gb @ gr) = drop 1 ?gb @ gr"
    using gb(1) by (cases ?gb) simp_all
  ultimately have "ids_en (drop 1 (grid_of (snd ?a2) mes)) 3 = ids_en (drop 1 ?gb) 3 \<union> ids_en gr 3"
    by (simp only: ids_en_append)
  moreover have "?ids2 = ids_en (drop 1 (grid_of (snd ?a2) mes)) 3"
    using leer_hoja_parts(2) [of v mes ?st1] c by (simp add: a2)
  ultimately have ids2: "?ids2 = ids_en (drop 1 ?gb) 3 \<union> ids_en gr 3"
    by simp
  have "\<exists>s. map_of r ''id'' = Some (Str s) \<and> s \<in> ?ids2" if r: "r \<in> set resultados" for r
  proof -
    obtain s where s: "map_of r ''id'' = Some (Str s)" "s \<noteq> []" "strip s = s"
      using ids r by blast
    obtain i where i: "i < length resultados" "resultados ! i = r"
      using r by (auto simp: in_set_conv_nth)
    have rr: "record_row r ''id'' = Str s" using s(1) by (simp add: record_row_def)
    show ?thesis
    proof (cases "s \<in> ?ids1")
      case True
      then show ?thesis using s(1) by (auto simp: ids1 ids2)
    next
      case False
      then have "\<not> isin ?ids1 (record_row r ''id'')" by (simp add: rr isin_def)
      then have "(i, record_row r) \<in> set (rows ?df1)"
        using idcol i by (auto simp: rows_deduplicar rows_DataFrame)
      then have "s \<in> (\<lambda>f. cell f 3) ` set gr" using rr by (rule app)
      then have "s \<in> ids_en gr 3" using s(2,3) by (force simp: ids_en_def)
      then show ?thesis using s(1) by (auto simp: ids2)
    qed
  qed
  then have "rows (deduplicar (DataFrame resultados) ?ids2) = []"
    by (intro all_matched_empty) blast
  then have "df_empty (deduplicar (DataFrame resultados) ?ids2)" by (simp add: df_empty_def)
  then have "guardar_en_hoja v resultados fecha ?st1 = (Inr NothingNew, ?str2)"
    using ne mes by (intro guardar_nothing_new)
  then show ?thesis by (simp add: sh2)
qed


theorem second_run_is_noop_witness:
  "fst (guardar_en_hoja ScrapingPy lote_parcial ''2024-08-15'' hoja_agosto) = Inr (Saved 1 ''August'')
   \<and> fst (guardar_en_hoja ScrapingPy lote_parcial ''2024-08-15''
            (snd (guardar_en_hoja ScrapingPy lote_parcial ''2024-08-15'' hoja_agosto)))
        = Inr NothingNew
   \<and> grid_of (snd (guardar_en_hoja ScrapingPy lote_parcial ''2024-08-15''
            (snd (guardar_en_hoja ScrapingPy lote_parcial ''2024-08-15'' hoja_agosto)))) ''August''
        = grid_of (snd (guardar_en_hoja ScrapingPy lote_parcial ''2024-08-15'' hoja_agosto)) ''August''
   \<and> fst (guardar_en_hoja SheetsPy lote_parcial ''2024-08-15'' sin_hojas) = Inr (Saved 2 ''August'')
   \<and> fst (guardar_en_hoja SheetsPy lote_parcial ''2024-08-15''
            (snd (guardar_en_hoja SheetsPy lote_parcial ''2024-08-15'' sin_hojas)))
        = Inr NothingNew"
proof -
  have ne: "lote_parcial \<noteq> []" by (simp add: lote_parcial_def)
  have mes: "mes_de ''2024-08-15'' = Some ''August''" by code_simp
  have s: "strip ''A1'' = ''A1''" "strip ''A2'' = ''A2''" by code_simp+
  have ids: "\<forall>r\<in>set lote_parcial. \<exists>s. map_of r ''id'' = Some (Str s) \<and> s \<noteq> [] \<and> strip s = s"
    by (simp add: lote_parcial_def s)
  have ok1: "fst (guardar_en_hoja ScrapingPy lote_parcial ''2024-08-15'' hoja_agosto)
               = Inr (Saved 1 ''August'')"
    by code_simp
  have col1: "find_header_idx ScrapingPy
                (grid_row (grid_of (snd (guardar_en_hoja ScrapingPy lote_parcial ''2024-08-15'' hoja_agosto))
                   ''August'') 1) id_aliases = Some 3"
    by code_simp
  have ok2: "fst (guardar_en_hoja SheetsPy lote_parcial ''2024-08-15'' sin_hojas)
               = Inr (Saved 2 ''August'')"
    by code_simp
  have col2: "find_header_idx SheetsPy
                (grid_row (grid_of (snd (guardar_en_hoja SheetsPy lote_parcial ''2024-08-15'' sin_hojas))
                   ''August'') 1) id_aliases = Some 3"
    by code_simp
  note a = second_run_is_noop [OF ne mes ok1 ids col1]
  note b = second_run_is_noop [OF ne mes ok2 ids col2]
  show ?thesis
    by (intro conjI ok1 ok2 a [THEN conjunct1] b [THEN conjunct1]
          grid_of_cong [OF a [THEN conjunct2]])
qed

end
